theory Spec2Isabelle
  imports Complex_Main "HOL-Library.Multiset"
begin

section \<open>JavaScript strings and regular expressions\<close>

text \<open>
  Strings are lists of characters. The local engine is configured with an ASCII-only
  character whitelist, so characters are modelled as single bytes and case conversion
  acts on the ASCII letters.
\<close>

definition charCode :: "char \<Rightarrow> nat" where
  "charCode c = of_char c"

definition isUpper :: "char \<Rightarrow> bool" where
  "isUpper c \<longleftrightarrow> 65 \<le> charCode c \<and> charCode c \<le> 90"

definition isLower :: "char \<Rightarrow> bool" where
  "isLower c \<longleftrightarrow> 97 \<le> charCode c \<and> charCode c \<le> 122"

definition isDigit :: "char \<Rightarrow> bool" where
  "isDigit c \<longleftrightarrow> 48 \<le> charCode c \<and> charCode c \<le> 57"

definition isLetter :: "char \<Rightarrow> bool" where
  "isLetter c \<longleftrightarrow> isUpper c \<or> isLower c"

definition isAlnum :: "char \<Rightarrow> bool" where
  "isAlnum c \<longleftrightarrow> isLetter c \<or> isDigit c"

text \<open>The classes \<open>\w\<close> and \<open>\s\<close> (tab, line feed, vertical tab, form feed, carriage
  return, space).\<close>

definition isWordChar :: "char \<Rightarrow> bool" where
  "isWordChar c \<longleftrightarrow> isAlnum c \<or> c = CHR ''_''"

definition isSpace :: "char \<Rightarrow> bool" where
  "isSpace c \<longleftrightarrow> (9 \<le> charCode c \<and> charCode c \<le> 13) \<or> charCode c = 32"

definition lowerChar :: "char \<Rightarrow> char" where
  "lowerChar c = (if isUpper c then char_of (charCode c + 32) else c)"

definition upperChar :: "char \<Rightarrow> char" where
  "upperChar c = (if isLower c then char_of (charCode c - 32) else c)"

definition toLowerCase :: "string \<Rightarrow> string" where
  "toLowerCase s = map lowerChar s"

definition toUpperCase :: "string \<Rightarrow> string" where
  "toUpperCase s = map upperChar s"

definition trim :: "string \<Rightarrow> string" where
  "trim s = rev (dropWhile isSpace (rev (dropWhile isSpace s)))"

text \<open>JavaScript truthiness of an optional string: undefined and the empty string are falsy.\<close>

definition truthy :: "string option \<Rightarrow> bool" where
  "truthy s = (case s of None \<Rightarrow> False | Some t \<Rightarrow> t \<noteq> [])"

text \<open>The value of an optional property at a place where the code has checked it.\<close>

definition the_default :: "'a \<Rightarrow> 'a option \<Rightarrow> 'a" where
  "the_default d x = (case x of None \<Rightarrow> d | Some v \<Rightarrow> v)"

text \<open>\<open>s.split(c)\<close> for a one-character separator: never empty, \<open>''.split(c)\<close> is
  \<open>['']\<close>.\<close>

fun js_split :: "char \<Rightarrow> string \<Rightarrow> string list" where
  "js_split c [] = [[]]"
| "js_split c (x # xs) =
     (if x = c then [] # js_split c xs
      else (case js_split c xs of [] \<Rightarrow> [[x]] | w # ws \<Rightarrow> (x # w) # ws))"

text \<open>\<open>parts.join(sep)\<close>.\<close>

fun js_join :: "string \<Rightarrow> string list \<Rightarrow> string" where
  "js_join sep [] = []"
| "js_join sep [x] = x"
| "js_join sep (x # y # ys) = x @ sep @ js_join sep (y # ys)"

fun startsWith :: "string \<Rightarrow> string \<Rightarrow> bool" where
  "startsWith s [] = True"
| "startsWith [] (p # ps) = False"
| "startsWith (x # xs) (p # ps) = (x = p \<and> startsWith xs ps)"

text \<open>\<open>s.includes(sub)\<close>.\<close>

fun js_includes :: "string \<Rightarrow> string \<Rightarrow> bool" where
  "js_includes [] sub = (sub = [])"
| "js_includes (x # xs) sub = (startsWith (x # xs) sub \<or> js_includes xs sub)"

text \<open>\<open>s.replace(/lit/g, new)\<close> for a literal, non-empty pattern: leftmost occurrences,
  not overlapping.\<close>

fun replaceAll_skip :: "string \<Rightarrow> string \<Rightarrow> nat \<Rightarrow> string \<Rightarrow> string" where
  "replaceAll_skip lit new k [] = []"
| "replaceAll_skip lit new k (x # xs) =
     (if k > 0 then replaceAll_skip lit new (k - 1) xs
      else if lit \<noteq> [] \<and> startsWith (x # xs) lit
        then new @ replaceAll_skip lit new (length lit - 1) xs
      else x # replaceAll_skip lit new 0 xs)"

definition replaceAll :: "string \<Rightarrow> string \<Rightarrow> string \<Rightarrow> string" where
  "replaceAll lit new s = replaceAll_skip lit new 0 s"

text \<open>\<open>s.replace(/\s+/g, ' ')\<close>: every maximal run of white space becomes one space.\<close>

fun collapseSpaces_run :: "bool \<Rightarrow> string \<Rightarrow> string" where
  "collapseSpaces_run inRun [] = []"
| "collapseSpaces_run inRun (x # xs) =
     (if isSpace x then
        (if inRun then collapseSpaces_run True xs else CHR '' '' # collapseSpaces_run True xs)
      else x # collapseSpaces_run False xs)"

definition collapseSpaces :: "string \<Rightarrow> string" where
  "collapseSpaces s = collapseSpaces_run False s"

text \<open>
  The regular expressions of the parsers use classes, greedy repetition of a class,
  sequences, greedy optional groups and the word boundary. \<open>rmatch r prev s\<close> lists, in the
  backtracking order of the engine, the ways \<open>r\<close> matches a prefix of \<open>s\<close>, each as the
  text consumed and the rest; \<open>prev\<close> is the character before \<open>s\<close>, for \<open>\b\<close>.
\<close>

datatype regex =
    Chr "char \<Rightarrow> bool"
  | Rep "char \<Rightarrow> bool" nat "nat option"
  | Seq "regex list"
  | Opt regex
  | WordB

definition lastChar :: "char option \<Rightarrow> string \<Rightarrow> char option" where
  "lastChar prev a = (if a = [] then prev else Some (last a))"

definition wordAt :: "char option \<Rightarrow> bool" where
  "wordAt c = (case c of None \<Rightarrow> False | Some x \<Rightarrow> isWordChar x)"

definition firstChar :: "string \<Rightarrow> char option" where
  "firstChar s = (case s of [] \<Rightarrow> None | c # _ \<Rightarrow> Some c)"

definition repChoices :: "(char \<Rightarrow> bool) \<Rightarrow> nat \<Rightarrow> nat option \<Rightarrow> string \<Rightarrow> (string \<times> string) list" where
  "repChoices p m n s =
     (let k = length (takeWhile p s);
          hi = (case n of None \<Rightarrow> k | Some b \<Rightarrow> min k b)
      in map (\<lambda>j. (take j s, drop j s)) (rev [m ..< Suc hi]))"

fun rmatch :: "regex \<Rightarrow> char option \<Rightarrow> string \<Rightarrow> (string \<times> string) list"
  and rmatch_seq :: "regex list \<Rightarrow> char option \<Rightarrow> string \<Rightarrow> (string \<times> string) list" where
  "rmatch (Chr p) prev s = (case s of [] \<Rightarrow> [] | c # cs \<Rightarrow> if p c then [([c], cs)] else [])"
| "rmatch (Rep p m n) prev s = repChoices p m n s"
| "rmatch (Seq rs) prev s = rmatch_seq rs prev s"
| "rmatch (Opt r) prev s = rmatch r prev s @ [([], s)]"
| "rmatch WordB prev s = (if wordAt prev \<noteq> wordAt (firstChar s) then [([], s)] else [])"
| "rmatch_seq [] prev s = [([], s)]"
| "rmatch_seq (r # rs) prev s =
     concat (map (\<lambda>(a, t). map (\<lambda>(b, u). (a @ b, u)) (rmatch_seq rs (lastChar prev a) t))
                 (rmatch r prev s))"

text \<open>\<open>/^r$/.test(s)\<close>, \<open>/^r/.test(s)\<close> and \<open>/r/.test(s)\<close>.\<close>

definition testFull :: "regex \<Rightarrow> string \<Rightarrow> bool" where
  "testFull r s = list_ex (\<lambda>(a, t). t = []) (rmatch r None s)"

definition testPrefix :: "regex \<Rightarrow> string \<Rightarrow> bool" where
  "testPrefix r s \<longleftrightarrow> rmatch r None s \<noteq> []"

fun testAt :: "regex \<Rightarrow> char option \<Rightarrow> string \<Rightarrow> bool" where
  "testAt r prev [] = (rmatch r prev [] \<noteq> [])"
| "testAt r prev (c # cs) = (rmatch r prev (c # cs) \<noteq> [] \<or> testAt r (Some c) cs)"

definition test :: "regex \<Rightarrow> string \<Rightarrow> bool" where
  "test r s = testAt r None s"

text \<open>
  The successive results of \<open>r.exec(s)\<close> for a global expression that matches no empty
  text: the leftmost match, then the leftmost match after it, until there is none.
  \<open>k\<close> counts the characters of the last match still to be skipped.
\<close>

fun execAll_skip :: "regex \<Rightarrow> nat \<Rightarrow> char option \<Rightarrow> string \<Rightarrow> string list" where
  "execAll_skip r k prev [] = []"
| "execAll_skip r k prev (c # cs) =
     (if k > 0 then execAll_skip r (k - 1) (Some c) cs
      else (case rmatch r prev (c # cs) of
              [] \<Rightarrow> execAll_skip r 0 (Some c) cs
            | (a, t) # _ \<Rightarrow> a # execAll_skip r (length a - 1) (Some c) cs))"

definition execAll :: "regex \<Rightarrow> string \<Rightarrow> string list" where
  "execAll r s = execAll_skip r 0 None s"

text \<open>No class of the expression admits the character \<open>c\<close>.\<close>

fun avoids :: "char \<Rightarrow> regex \<Rightarrow> bool" where
  "avoids c (Chr p) = (\<not> p c)"
| "avoids c (Rep p m n) = (\<not> p c)"
| "avoids c (Seq rs) = (\<forall>r \<in> set rs. avoids c r)"
| "avoids c (Opt r) = avoids c r"
| "avoids c WordB = True"

text \<open>A text with exactly one \<open>@\<close>: a part before it and a part after it.\<close>

definition oneAt :: "string \<Rightarrow> string \<Rightarrow> string \<Rightarrow> bool" where
  "oneAt s u d \<longleftrightarrow> s = u @ CHR ''@'' # d \<and> CHR ''@'' \<notin> set u \<and> CHR ''@'' \<notin> set d"

section \<open>Hybrid recognition orchestration (hybridOcrService.ts)\<close>

text \<open>
  The contact record returned by either recognition backend (interface ContactData of the
  OCR service). Optional properties are options; confidences are numbers, and every
  confidence this development computes is an integer.
\<close>

record Address =
  street :: "string option"
  city :: "string option"
  state :: "string option"
  zip :: "string option"
  country :: "string option"
  full :: "string option"

record FieldConfidences =
  fc_name :: "int option"
  fc_title :: "int option"
  fc_company :: "int option"
  fc_phone :: "int option"
  fc_email :: "int option"
  fc_website :: "int option"
  fc_address :: "int option"

record ContactData =
  name :: "string option"
  title :: "string option"
  company :: "string option"
  phone :: "string option"
  email :: "string option"
  website :: "string option"
  address :: "Address option"
  raw_text :: string
  confidence :: int
  fieldConfidences :: "FieldConfidences option"

definition noConfidences :: FieldConfidences where
  "noConfidences = \<lparr>fc_name = None, fc_title = None, fc_company = None, fc_phone = None,
     fc_email = None, fc_website = None, fc_address = None\<rparr>"

datatype processor = GoogleVision | Tesseract

datatype fallback_choice = FallbackTesseract | FallbackGoogleVision | FallbackNone

record ProcessingStrategy =
  primary :: processor
  fallback :: fallback_choice
  reason :: string

record ProcessingResult = ContactData +
  processor :: processor
  processingTime :: int
  strategy :: ProcessingStrategy
  fallbackUsed :: "bool option"
  error :: "string option"

record HybridOcrConfig =
  googleVisionApiKey :: "string option"
  maxGoogleVisionRequests :: int
  forceOfflineMode :: bool
  enableAnalytics :: bool
  networkTimeout :: int

text \<open>A thrown JavaScript Error, identified by its message.\<close>

type_synonym js_error = string




text \<open>
  What one call observes of the world outside the orchestrator: the outcome of the two
  probes of determineStrategy, the cloud service's remaining quota
  (maxRequests - requestCount of getUsageStats), the outcome of each backend invocation
  (a thrown error or a contact record), and the clock readings.
\<close>

datatype fetch_outcome = Response bool | FetchFailed

record Environment =
  serviceAccountFetch :: fetch_outcome
  navigatorOnLine :: bool
  connectivityFetch :: fetch_outcome
  remainingRequests :: int
  imageIsCanvas :: bool
  canvasToBlob :: "js_error + unit"
  googleVisionProcess :: "js_error + ContactData"
  tesseractProcess :: "js_error + ContactData"
  startTime :: int
  endTime :: int
  logTime :: int

definition checkServiceAccountAvailable :: "Environment \<Rightarrow> bool" where
  "checkServiceAccountAvailable env =
     (case serviceAccountFetch env of Response ok \<Rightarrow> ok | FetchFailed \<Rightarrow> False)"

definition checkNetworkConnectivity :: "Environment \<Rightarrow> bool" where
  "checkNetworkConnectivity env =
     (if \<not> navigatorOnLine env then False
      else (case connectivityFetch env of Response ok \<Rightarrow> ok | FetchFailed \<Rightarrow> False))"

definition determineStrategy :: "HybridOcrConfig \<Rightarrow> Environment \<Rightarrow> ProcessingStrategy" where
  "determineStrategy cfg env =
     (if forceOfflineMode cfg then
        \<lparr>primary = Tesseract, fallback = FallbackNone, reason = ''Force offline mode enabled''\<rparr>
      else if \<not> truthy (googleVisionApiKey cfg) \<and> \<not> checkServiceAccountAvailable env then
        \<lparr>primary = Tesseract, fallback = FallbackNone,
         reason = ''Google Vision API not configured (no API key or service account)''\<rparr>
      else if \<not> checkNetworkConnectivity env then
        \<lparr>primary = Tesseract, fallback = FallbackNone,
         reason = ''Network connectivity unavailable''\<rparr>
      else if remainingRequests env \<le> 0 then
        \<lparr>primary = Tesseract, fallback = FallbackNone,
         reason = ''Google Vision API monthly limit reached''\<rparr>
      else
        \<lparr>primary = GoogleVision, fallback = FallbackTesseract,
         reason = ''Optimal accuracy and speed''\<rparr>)"

text \<open>slice(-n) of an array: its last n elements.\<close>

definition lastN :: "nat \<Rightarrow> 'a list \<Rightarrow> 'a list" where
  "lastN n xs = drop (length xs - n) xs"







text \<open>Sample values: the constructor's default configuration with an API key set.\<close>

definition sampleConfig :: HybridOcrConfig where
  "sampleConfig = \<lparr>googleVisionApiKey = Some ''key'', maxGoogleVisionRequests = 1000,
     forceOfflineMode = False, enableAnalytics = True, networkTimeout = 10000\<rparr>"




definition probes :: "bool \<Rightarrow> int \<Rightarrow> Environment" where
  "probes online remaining = \<lparr>serviceAccountFetch = FetchFailed, navigatorOnLine = online,
     connectivityFetch = Response True, remainingRequests = remaining, imageIsCanvas = False,
     canvasToBlob = Inr (), googleVisionProcess = Inl ''unused'',
     tesseractProcess = Inl ''unused'', startTime = 0, endTime = 0, logTime = 0\<rparr>"



text \<open>The conditions of determineStrategy, named.\<close>

definition credentialsMissing :: "HybridOcrConfig \<Rightarrow> Environment \<Rightarrow> bool" where
  "credentialsMissing cfg env \<longleftrightarrow>
     \<not> truthy (googleVisionApiKey cfg) \<and> \<not> checkServiceAccountAvailable env"

definition localOnly :: "string \<Rightarrow> ProcessingStrategy" where
  "localOnly why = \<lparr>primary = Tesseract, fallback = FallbackNone, reason = why\<rparr>"

section \<open>Email parser (parsers/emailParser.ts)\<close>

record EmailParseResult =
  ep_email :: string
  ep_confidence :: int
  ep_isPrimary :: bool
  ep_domain :: string
  ep_isValid :: bool
  ep_corrections :: "string list option"

definition isAt :: "char \<Rightarrow> bool" where
  "isAt c \<longleftrightarrow> c = CHR ''@''"

definition isDot :: "char \<Rightarrow> bool" where
  "isDot c \<longleftrightarrow> c = CHR ''.''"

text \<open>The classes \<open>[a-zA-Z0-9._-]\<close> and \<open>[a-zA-Z0-9.-]\<close>.\<close>

definition userChar :: "char \<Rightarrow> bool" where
  "userChar c \<longleftrightarrow> isAlnum c \<or> c = CHR ''.'' \<or> c = CHR ''_'' \<or> c = CHR ''-''"

definition domainChar :: "char \<Rightarrow> bool" where
  "domainChar c \<longleftrightarrow> isAlnum c \<or> c = CHR ''.'' \<or> c = CHR ''-''"

text \<open>The part of both patterns up to the top-level domain:
  \<open>[a-zA-Z0-9](?:[a-zA-Z0-9._-]*[a-zA-Z0-9])?@[a-zA-Z0-9](?:[a-zA-Z0-9.-]*[a-zA-Z0-9])?\<close>.\<close>

definition localPartRx :: "regex list" where
  "localPartRx = [Chr isAlnum, Opt (Seq [Rep userChar 0 None, Chr isAlnum])]"

definition hostRx :: "regex list" where
  "hostRx = [Chr isAlnum, Opt (Seq [Rep domainChar 0 None, Chr isAlnum])]"

text \<open>standard: \<open>...\.[a-zA-Z]{2,}(?:\.[a-zA-Z]{2,3})?\<close>; ocr_corrected:
  \<open>...\.c[o0]m?\b\<close>.\<close>

definition standardTail :: "regex list" where
  "standardTail = [Chr isDot, Rep isLetter 2 None, Opt (Seq [Chr isDot, Rep isLetter 2 (Some 3)])]"

definition ocrTail :: "regex list" where
  "ocrTail = [Chr isDot, Chr (\<lambda>c. c = CHR ''c''), Chr (\<lambda>c. c = CHR ''o'' \<or> c = CHR ''0''),
     Opt (Chr (\<lambda>c. c = CHR ''m'')), WordB]"

definition emailRx :: "regex list \<Rightarrow> regex" where
  "emailRx tail = Seq (localPartRx @ [Chr isAt] @ hostRx @ tail)"

definition EMAIL_PATTERNS :: "(regex \<times> int) list" where
  "EMAIL_PATTERNS = [(emailRx standardTail, 95), (emailRx ocrTail, 80)]"

definition VALID_DOMAINS :: "string list" where
  "VALID_DOMAINS =
    [''com'', ''org'', ''net'', ''edu'', ''gov'', ''mil'', ''int'',
     ''co.uk'', ''co.au'', ''co.nz'', ''com.au'', ''co.jp'', ''co.kr'',
     ''ca'', ''de'', ''fr'', ''it'', ''es'', ''nl'', ''be'', ''ch'', ''at'',
     ''se'', ''no'', ''dk'', ''fi'', ''pl'', ''cz'', ''hu'', ''ru'',
     ''io'', ''ai'', ''tech'', ''dev'', ''app'', ''cloud'', ''digital'',
     ''online'', ''site'', ''website'', ''pro'', ''biz'', ''info'']"

datatype correction_context = CtxDomain | CtxUsername | CtxBoth

definition OCR_CORRECTIONS :: "(string \<times> string \<times> correction_context) list" where
  "OCR_CORRECTIONS =
    [(''0'', ''o'', CtxDomain), (''O'', ''0'', CtxUsername), (''l'', ''1'', CtxUsername),
     (''I'', ''1'', CtxUsername), (''S'', ''5'', CtxUsername), (''G'', ''6'', CtxUsername),
     (''c0m'', ''com'', CtxDomain), (''|'', ''l'', CtxBoth), (''rn'', ''m'', CtxBoth)]"

definition BUSINESS_INDICATORS :: "string list" where
  "BUSINESS_INDICATORS =
    [''info'', ''contact'', ''sales'', ''support'', ''admin'', ''office'',
     ''hello'', ''team'', ''mail'', ''inquiries'', ''business'']"

definition PERSONAL_INDICATORS :: "string list" where
  "PERSONAL_INDICATORS =
    [''gmail.com'', ''yahoo.com'', ''hotmail.com'', ''outlook.com'',
     ''icloud.com'', ''me.com'', ''aol.com'', ''live.com'']"

text \<open>\<open>s.replace(/r/g, callback)\<close> for an expression that matches no empty text: each
  match, found as by exec, is replaced by the callback's value on it.\<close>

fun replaceWith_skip ::
  "regex \<Rightarrow> (string \<Rightarrow> string) \<Rightarrow> nat \<Rightarrow> char option \<Rightarrow> string \<Rightarrow> string" where
  "replaceWith_skip r g k prev [] = []"
| "replaceWith_skip r g k prev (c # cs) =
     (if k > 0 then replaceWith_skip r g (k - 1) (Some c) cs
      else (case rmatch r prev (c # cs) of
              [] \<Rightarrow> c # replaceWith_skip r g 0 (Some c) cs
            | (a, t) # _ \<Rightarrow> g a @ replaceWith_skip r g (length a - 1) (Some c) cs))"

definition replaceWith :: "regex \<Rightarrow> (string \<Rightarrow> string) \<Rightarrow> string \<Rightarrow> string" where
  "replaceWith r g s = replaceWith_skip r g 0 None s"

text \<open>The two replacements of applyOCRCorrections: \<open>/@([^@\s]+)/g\<close> with the domain
  rewritten, and \<open>/([a-zA-Z0-9._-]+)@/g\<close> with the user name rewritten.\<close>

definition correctDomains :: "string \<Rightarrow> string \<Rightarrow> string \<Rightarrow> string" where
  "correctDomains from to s =
     replaceWith (Seq [Chr isAt, Rep (\<lambda>c. \<not> isAt c \<and> \<not> isSpace c) 1 None])
       (\<lambda>m. CHR ''@'' # replaceAll from to (tl m)) s"

definition correctUsernames :: "string \<Rightarrow> string \<Rightarrow> string \<Rightarrow> string" where
  "correctUsernames from to s =
     replaceWith (Seq [Rep userChar 1 None, Chr isAt])
       (\<lambda>m. replaceAll from to (butlast m) @ ''@'') s"

definition applyCorrection :: "(string \<times> string \<times> correction_context) \<Rightarrow> string \<Rightarrow> string" where
  "applyCorrection c s =
     (case c of (from, to, ctx) \<Rightarrow>
        (let s1 = (if ctx = CtxDomain \<or> ctx = CtxBoth then correctDomains from to s else s)
         in (if ctx = CtxUsername \<or> ctx = CtxBoth then correctUsernames from to s1 else s1)))"

definition applyOCRCorrections :: "string \<Rightarrow> string" where
  "applyOCRCorrections text = fold applyCorrection OCR_CORRECTIONS text"

definition isValidFormat :: "string \<Rightarrow> string \<Rightarrow> bool" where
  "isValidFormat username domain \<longleftrightarrow>
     username \<noteq> [] \<and> domain \<noteq> [] \<and> length username \<ge> 1 \<and> length domain \<ge> 3 \<and>
     js_includes domain ''.'' \<and>
     testFull (Rep userChar 1 None) username \<and>
     testFull (Rep domainChar 1 None) domain"

definition hasValidTLD :: "string \<Rightarrow> bool" where
  "hasValidTLD domain =
     (let domainParts = js_split CHR ''.'' domain;
          tld = last domainParts;
          secondLevel = js_join ''.'' (lastN 2 domainParts)
      in tld \<in> set VALID_DOMAINS \<or> secondLevel \<in> set VALID_DOMAINS)"

definition isPersonalDomain :: "string \<Rightarrow> bool" where
  "isPersonalDomain addr =
     list_ex (\<lambda>indicator. js_includes (toLowerCase addr) indicator) PERSONAL_INDICATORS"

definition hasBusinessUsername :: "string \<Rightarrow> bool" where
  "hasBusinessUsername username =
     list_ex (\<lambda>indicator. js_includes (toLowerCase username) indicator) BUSINESS_INDICATORS"

text \<open>
  validateAndScore. The destructuring of \<open>email.split('@')\<close> leaves the domain undefined
  when the text has no \<open>@\<close>, and \<open>domain.split\<close> then throws. The confidences are
  integers, on which Math.round is the identity.
\<close>

definition validateAndScore :: "string \<Rightarrow> int \<Rightarrow> bool \<Rightarrow> js_error + EmailParseResult" where
  "validateAndScore addr baseConfidence hadOCRCorrections =
     (case js_split CHR ''@'' addr of
        username # domain # _ \<Rightarrow>
          (let c0 = (if \<not> isValidFormat username domain then 0 else baseConfidence);
               c1 = (if \<not> hasValidTLD domain \<and> c0 > 0 then c0 - 15 else c0);
               c2 = (if hadOCRCorrections then c1 - 10 else c1);
               isPrimary = (\<not> isPersonalDomain addr \<or> hasBusinessUsername username);
               c3 = (if isPrimary \<and> \<not> isPersonalDomain addr then c2 + 10 else c2)
           in Inr \<lparr>ep_email = addr, ep_confidence = max 0 (min 100 c3),
                   ep_isPrimary = isPrimary, ep_domain = domain, ep_isValid = (c3 > 50),
                   ep_corrections =
                     (if hadOCRCorrections then Some [''OCR corrections applied''] else None)\<rparr>)
      | _ \<Rightarrow> Inl ''TypeError: Cannot read properties of undefined (reading split)'')"

text \<open>The score validateAndScore has before its allow-list check, and the sum of the
  adjustments it makes after it (the OCR penalty and the bonus for an address outside the
  free-mail domains).\<close>

definition formatScore :: "string \<Rightarrow> string \<Rightarrow> int \<Rightarrow> int" where
  "formatScore username domain baseConfidence =
     (if \<not> isValidFormat username domain then 0 else baseConfidence)"

definition laterAdjustments :: "string \<Rightarrow> bool \<Rightarrow> int" where
  "laterAdjustments addr hadOCRCorrections =
     (if hadOCRCorrections then - 10 else 0) + (if \<not> isPersonalDomain addr then 10 else 0)"

text \<open>Array.prototype.sort is stable: insertion from the right with a comparator.\<close>

fun insertBy :: "('a \<Rightarrow> 'a \<Rightarrow> 'b::{linorder,zero}) \<Rightarrow> 'a \<Rightarrow> 'a list \<Rightarrow> 'a list" where
  "insertBy cmp x [] = [x]"
| "insertBy cmp x (y # ys) = (if cmp x y \<le> 0 then x # y # ys else y # insertBy cmp x ys)"

definition sortBy :: "('a \<Rightarrow> 'a \<Rightarrow> 'b::{linorder,zero}) \<Rightarrow> 'a list \<Rightarrow> 'a list" where
  "sortBy cmp xs = foldr (insertBy cmp) xs []"

definition emailOrder :: "EmailParseResult \<Rightarrow> EmailParseResult \<Rightarrow> int" where
  "emailOrder a b =
     (if ep_isPrimary a \<noteq> ep_isPrimary b then (if ep_isPrimary a then - 1 else 1)
      else ep_confidence b - ep_confidence a)"

text \<open>The loop over the matches of one pattern: the results so far, the set of processed
  addresses, and the first error thrown.\<close>

fun scoreMatches ::
  "int \<Rightarrow> bool \<Rightarrow> string list \<Rightarrow> (EmailParseResult list \<times> string list) \<Rightarrow>
   js_error + (EmailParseResult list \<times> string list)" where
  "scoreMatches conf had [] acc = Inr acc"
| "scoreMatches conf had (m # ms) (results, processed) =
     (let addr = trim (toLowerCase m) in
      if addr \<in> set processed then scoreMatches conf had ms (results, processed)
      else (case validateAndScore addr conf had of
              Inl e \<Rightarrow> Inl e
            | Inr result \<Rightarrow>
                scoreMatches conf had ms
                  ((if ep_isValid result then results @ [result] else results),
                   processed @ [addr])))"

fun scorePatterns ::
  "string \<Rightarrow> (regex \<times> int) list \<Rightarrow> (EmailParseResult list \<times> string list) \<Rightarrow>
   js_error + (EmailParseResult list \<times> string list)" where
  "scorePatterns text [] acc = Inr acc"
| "scorePatterns text ((pattern, conf) # ps) acc =
     (let correctedText = applyOCRCorrections text in
      case scoreMatches conf (text \<noteq> correctedText) (execAll pattern correctedText) acc of
        Inl e \<Rightarrow> Inl e
      | Inr acc' \<Rightarrow> scorePatterns text ps acc')"

definition extractEmails :: "string \<Rightarrow> js_error + EmailParseResult list" where
  "extractEmails text =
     (case scorePatterns text EMAIL_PATTERNS ([], []) of
        Inl e \<Rightarrow> Inl e
      | Inr (results, _) \<Rightarrow> Inr (sortBy emailOrder results))"

text \<open>\<open>results.find(r => r.isPrimary) || results[0] || null\<close>.\<close>

definition getPrimaryEmail :: "EmailParseResult list \<Rightarrow> EmailParseResult option" where
  "getPrimaryEmail results =
     (case find ep_isPrimary results of
        Some r \<Rightarrow> Some r
      | None \<Rightarrow> (case results of [] \<Rightarrow> None | r # _ \<Rightarrow> Some r))"

text \<open>deriveWebsite: the template prints an undefined domain as the text undefined.\<close>

definition deriveWebsite :: "string \<Rightarrow> string" where
  "deriveWebsite addr =
     (case js_split CHR ''@'' addr of
        _ # domain # _ \<Rightarrow> ''www.'' @ domain
      | _ \<Rightarrow> ''www.undefined'')"

text \<open>The substring of an address after its first \<open>@\<close>.\<close>

definition substringAfterAt :: "string \<Rightarrow> string" where
  "substringAfterAt addr = drop 1 (dropWhile (\<lambda>c. c \<noteq> CHR ''@'') addr)"

section \<open>Name parser (parsers/nameParser.ts)\<close>

record NameParseResult =
  np_name :: string
  np_confidence :: int
  np_title :: "string option"
  np_isValid :: bool
  np_separatedFromTitle :: bool
  np_corrections :: "string list option"

definition TITLE_PREFIXES :: "string list" where
  "TITLE_PREFIXES =
    [''mr'', ''mrs'', ''ms'', ''miss'', ''dr'', ''prof'', ''professor'', ''rev'', ''reverend'']"

definition TITLE_KEYWORDS :: "string list" where
  "TITLE_KEYWORDS =
    [''ceo'', ''cto'', ''cfo'', ''coo'', ''president'', ''vice president'', ''vp'', ''svp'',
     ''director'', ''managing director'', ''executive director'', ''regional director'',
     ''manager'', ''senior manager'', ''general manager'', ''project manager'',
     ''product manager'',
     ''senior'', ''lead'', ''team lead'', ''tech lead'', ''head'', ''chief'', ''principal'',
     ''associate'', ''senior associate'', ''coordinator'', ''specialist'',
     ''senior specialist'',
     ''analyst'', ''senior analyst'', ''consultant'', ''senior consultant'', ''partner'',
     ''engineer'', ''software engineer'', ''senior engineer'', ''staff engineer'',
     ''developer'', ''senior developer'', ''software developer'', ''web developer'',
     ''designer'', ''senior designer'', ''ux designer'', ''ui designer'',
     ''architect'', ''software architect'', ''solution architect'', ''enterprise architect'',
     ''supervisor'', ''executive'', ''administrator'', ''admin'', ''assistant'',
     ''sales'', ''sales manager'', ''sales director'', ''sales executive'', ''sales rep'',
     ''marketing'', ''marketing manager'', ''marketing director'', ''marketing specialist'',
     ''hr'', ''human resources'', ''hr manager'', ''hr director'', ''hr specialist'',
     ''operations'', ''operations manager'', ''operations director'', ''ops manager'',
     ''finance'', ''finance manager'', ''finance director'', ''financial analyst'',
     ''owner'', ''co-owner'', ''founder'', ''co-founder'', ''partner'']"

text \<open>\<open>[A-Z][a-z]+\<close> and \<open>\s+\<close>, the building blocks of NAME_PATTERNS.\<close>

definition capWord :: "regex list" where
  "capWord = [Chr isUpper, Rep isLower 1 None]"

definition spaces :: "regex list" where
  "spaces = [Rep isSpace 1 None]"

definition isHyphen :: "char \<Rightarrow> bool" where
  "isHyphen c \<longleftrightarrow> c = CHR ''-''"

text \<open>Each expression is anchored at both ends.
  First Last; First M. Last with the dot optional; First M. Last; First Last-Last;
  First First Last.\<close>

definition NAME_PATTERNS :: "regex list" where
  "NAME_PATTERNS =
    [Seq (capWord @ spaces @ capWord),
     Seq (capWord @ spaces @ [Opt (Seq ([Chr isUpper, Opt (Chr isDot)] @ spaces))] @ capWord),
     Seq (capWord @ spaces @ [Opt (Seq ([Chr isUpper, Chr isDot] @ spaces))] @ capWord),
     Seq (capWord @ spaces @ capWord @ [Chr isHyphen] @ capWord),
     Seq (capWord @ spaces @ capWord @ spaces @ capWord)]"

text \<open>\<open>text.split(' ').filter(w => w.length > 0)\<close>.\<close>

definition wordsOf :: "string \<Rightarrow> string list" where
  "wordsOf s = filter (\<lambda>w. length w > 0) (js_split CHR '' '' s)"

text \<open>\<open>text.split('\n').map(line => line.trim()).filter(line => line.length > 0)\<close>.\<close>

definition linesOf :: "string \<Rightarrow> string list" where
  "linesOf s = filter (\<lambda>l. length l > 0) (map trim (js_split (CHR 0x0A) s))"

text \<open>\<open>/\d{3}/.test(s)\<close> and \<open>/\d/.test(s)\<close>.\<close>

definition hasThreeDigits :: "string \<Rightarrow> bool" where
  "hasThreeDigits s = test (Rep isDigit 3 (Some 3)) s"

definition hasDigit :: "string \<Rightarrow> bool" where
  "hasDigit s = test (Chr isDigit) s"

text \<open>isNotName. The ratio test is \<open>letterCount / totalCount < 0.6\<close> on a line of at
  least three characters, written here without the division.\<close>

definition isNotName :: "string \<Rightarrow> string option \<Rightarrow> bool" where
  "isNotName line excludeCompany =
     (let lowerLine = toLowerCase line in
      if truthy excludeCompany \<and> Some lowerLine = map_option toLowerCase excludeCompany
        then True
      else if js_includes line ''@'' \<or> hasThreeDigits line then True
      else if length line < 3 \<or> length line > 60 then True
      else if list_ex (\<lambda>keyword. lowerLine = keyword) TITLE_KEYWORDS then True
      else if 10 * length (filter isLetter line) < 6 * length line then True
      else False)"

definition cleanNameLine :: "string \<Rightarrow> string" where
  "cleanNameLine line =
     trim (filter (\<lambda>c. isWordChar c \<or> isSpace c \<or> c = CHR ''.'' \<or> c = CHR ''-'')
            (collapseSpaces
               (replaceAll ''rn'' ''m''
                  (replaceAll ''|'' ''I'' line))))"

text \<open>\<open>word.replace(/[.,]$/, '')\<close>.\<close>

definition stripFinalPunct :: "string \<Rightarrow> string" where
  "stripFinalPunct w =
     (if w \<noteq> [] \<and> (last w = CHR ''.'' \<or> last w = CHR '','') then butlast w else w)"

text \<open>The loop of extractTitlePrefix over \<open>i\<close> from \<open>i\<close> up to \<open>bound\<close>; \<open>n\<close> counts
  the iterations left.\<close>

fun prefixLoop :: "string list \<Rightarrow> nat \<Rightarrow> nat \<Rightarrow> (string \<times> string) option" where
  "prefixLoop ws i 0 = None"
| "prefixLoop ws i (Suc n) =
     (let word = stripFinalPunct (toLowerCase (ws ! i)) in
      if (word \<in> set TITLE_PREFIXES \<or> word \<in> set TITLE_KEYWORDS)
         \<and> length (js_join '' '' (drop (i + 1) ws)) \<ge> 3
      then Some (js_join '' '' (drop (i + 1) ws), js_join '' '' (take (i + 1) ws))
      else prefixLoop ws (i + 1) n)"

text \<open>extractTitlePrefix returns the name and the title, if one was found. The loop runs
  for \<open>i < min(2, words.length - 1)\<close>, so every index it reads is in range.\<close>

definition extractTitlePrefix :: "string \<Rightarrow> string \<times> string option" where
  "extractTitlePrefix line =
     (let ws = wordsOf line in
      case prefixLoop ws 0 (min 2 (length ws - 1)) of
        Some (nm, ttl) \<Rightarrow> (nm, Some ttl)
      | None \<Rightarrow> (line, None))"

definition looksLikeName :: "string \<Rightarrow> bool" where
  "looksLikeName txt =
     (let ws = wordsOf (trim txt) in
      if length ws < 1 \<or> length ws > 4 then False
      else if \<not> list_all (\<lambda>word. testPrefix (Seq [Chr isUpper, Rep isLower 0 None]) word) ws
        then False
      else if list_ex (\<lambda>keyword. js_includes (toLowerCase txt) keyword) TITLE_KEYWORDS
        then False
      else True)"

text \<open>The loop of extractTitleSuffix, downwards from \<open>i\<close>; \<open>n\<close> counts the iterations
  left.\<close>

fun suffixLoop :: "string list \<Rightarrow> nat \<Rightarrow> nat \<Rightarrow> (string \<times> string) option" where
  "suffixLoop ws i 0 = None"
| "suffixLoop ws i (Suc n) =
     (let titleWords = toLowerCase (js_join '' '' (drop i ws)) in
      if list_ex (\<lambda>keyword. js_includes titleWords keyword) TITLE_KEYWORDS
         \<and> length (js_join '' '' (take i ws)) \<ge> 3
         \<and> looksLikeName (js_join '' '' (take i ws))
      then Some (js_join '' '' (take i ws), js_join '' '' (drop i ws))
      else suffixLoop ws (i - 1) n)"

text \<open>extractTitleSuffix: \<open>i\<close> runs from \<open>words.length - 1\<close> down to
  \<open>max(0, words.length - 3)\<close>, that is \<open>min(3, words.length)\<close> iterations.\<close>

definition extractTitleSuffix :: "string \<Rightarrow> string \<times> string option" where
  "extractTitleSuffix line =
     (let ws = wordsOf line in
      if length ws < 2 then (line, None)
      else (case suffixLoop ws (length ws - 1) (min 3 (length ws)) of
              Some (nm, ttl) \<Rightarrow> (nm, Some ttl)
            | None \<Rightarrow> (line, None)))"

text \<open>validateName returns isValid and confidenceBoost.\<close>

definition validateName :: "string \<Rightarrow> bool \<times> int" where
  "validateName nm =
     (let boost0 = (if list_ex (\<lambda>pattern. testFull pattern nm) NAME_PATTERNS then 20 else 0);
          ws = wordsOf nm
      in if length ws < 2 then (False, 0)
         else
           (let boost1 = (if length ws > 4 then boost0 - 10 else boost0);
                boost2 = (if list_ex (\<lambda>word. length word < 2 \<or> length word > 15) ws
                          then boost1 - 5 else boost1)
            in if hasDigit nm then (False, 0) else (True, boost2)))"

text \<open>The three adjustments validateName makes to the confidence boost.\<close>

definition matchesNamePattern :: "string \<Rightarrow> bool" where
  "matchesNamePattern nm = list_ex (\<lambda>pattern. testFull pattern nm) NAME_PATTERNS"

definition hasOddWordLength :: "string \<Rightarrow> bool" where
  "hasOddWordLength nm = list_ex (\<lambda>word. length word < 2 \<or> length word > 15) (wordsOf nm)"

text \<open>\<open>part.charAt(0).toUpperCase() + part.slice(1).toLowerCase()\<close>.\<close>

definition capitalize :: "string \<Rightarrow> string" where
  "capitalize w = toUpperCase (take 1 w) @ toLowerCase (drop 1 w)"

definition formatWord :: "string \<Rightarrow> string" where
  "formatWord word =
     (if js_includes word ''-'' then js_join ''-'' (map capitalize (js_split CHR ''-'' word))
      else if length word = 1 \<or> (length word = 2 \<and> last word = CHR ''.'') then toUpperCase word
      else capitalize word)"

definition formatName :: "string \<Rightarrow> string" where
  "formatName nm = js_join '' '' (map formatWord (js_split CHR '' '' nm))"

definition parseNameFromLine :: "string \<Rightarrow> string option \<Rightarrow> NameParseResult option" where
  "parseNameFromLine line excludeCompany =
     (if isNotName line excludeCompany then None
      else
        (let cleanLine0 = cleanNameLine line;
             prefixResult = extractTitlePrefix cleanLine0;
             hasPrefix = truthy (snd prefixResult);
             cleanLine1 = (if hasPrefix then fst prefixResult else cleanLine0);
             title1 = (if hasPrefix then snd prefixResult else None);
             conf1 = (if hasPrefix then 60 + 10 else 60);
             suffixResult = extractTitleSuffix cleanLine1;
             hasSuffix = truthy (snd suffixResult);
             cleanLine2 = (if hasSuffix then fst suffixResult else cleanLine1);
             title2 = (if hasSuffix then
                         (if truthy title1
                          then Some (the_default [] title1 @ '', '' @ the_default [] (snd suffixResult))
                          else snd suffixResult)
                       else title1);
             conf2 = (if hasSuffix then conf1 + 15 else conf1);
             validationResult = validateName cleanLine2
         in if \<not> fst validationResult then None
            else Some \<lparr>np_name = formatName cleanLine2,
                       np_confidence = min 95 (conf2 + snd validationResult),
                       np_title = title2, np_isValid = True,
                       np_separatedFromTitle = (hasPrefix \<or> hasSuffix),
                       np_corrections =
                         (let cs = (if hasPrefix then
                                      [''Separated title prefix: '' @ the_default [] (snd prefixResult)]
                                    else []) @
                                   (if hasSuffix then
                                      [''Separated title suffix: '' @ the_default [] (snd suffixResult)]
                                    else [])
                          in if length cs > 0 then Some cs else None)\<rparr>))"

text \<open>The loop of extractName over the lines: the first line that parses to a valid
  result.\<close>

fun firstName :: "string list \<Rightarrow> string option \<Rightarrow> NameParseResult option" where
  "firstName [] excludeCompany = None"
| "firstName (line # ls) excludeCompany =
     (case parseNameFromLine line excludeCompany of
        Some result \<Rightarrow> (if np_isValid result then Some result else firstName ls excludeCompany)
      | None \<Rightarrow> firstName ls excludeCompany)"

definition extractName :: "string \<Rightarrow> string option \<Rightarrow> NameParseResult option" where
  "extractName txt excludeCompany = firstName (linesOf txt) excludeCompany"

section \<open>Layout analysis and field detection (ocrService.ts)\<close>

record BBox =
  x0 :: rat
  y0 :: rat
  x1 :: rat
  y1 :: rat

record OcrWord =
  w_text :: string
  w_confidence :: int
  w_bbox :: BBox

record OCRResult =
  ocr_text :: string
  ocr_confidence :: int
  ocr_words :: "OcrWord list"

datatype position = Top | Middle | Bottom

record LineItem =
  li_text :: string
  li_bbox :: BBox
  li_score :: int

record SizedItem =
  si_text :: string
  si_bbox :: BBox
  si_size :: rat

record PositionedItem =
  pi_text :: string
  pi_bbox :: BBox
  pi_position :: position

record LayoutAnalysis =
  topLines :: "LineItem list"
  middleLines :: "LineItem list"
  bottomLines :: "LineItem list"
  largestText :: "SizedItem list"
  allLines :: "PositionedItem list"
  cardHeight :: rat
  cardWidth :: rat

text \<open>The position classification inside the forEach of analyzeCardLayout.\<close>

definition positionOf :: "rat \<Rightarrow> rat \<Rightarrow> OcrWord \<Rightarrow> position" where
  "positionOf topThird bottomThird word =
     (let centerY = (y0 (w_bbox word) + y1 (w_bbox word)) / 2 in
      if centerY \<le> topThird then Top
      else if centerY \<ge> bottomThird then Bottom
      else Middle)"

definition lineItem :: "OcrWord \<Rightarrow> LineItem" where
  "lineItem word = \<lparr>li_text = w_text word, li_bbox = w_bbox word, li_score = w_confidence word\<rparr>"

definition sizedItem :: "OcrWord \<Rightarrow> SizedItem" where
  "sizedItem word =
     \<lparr>si_text = w_text word, si_bbox = w_bbox word,
      si_size = y1 (w_bbox word) - y0 (w_bbox word)\<rparr>"

text \<open>One round of the forEach: a word whose trimmed text is empty is skipped, any other
  is pushed to the list of its position, to allLines and to largestText.\<close>

definition placeWord :: "rat \<Rightarrow> rat \<Rightarrow> OcrWord \<Rightarrow> LayoutAnalysis \<Rightarrow> LayoutAnalysis" where
  "placeWord topThird bottomThird word la =
     (if trim (w_text word) = [] then la
      else
        (let pos = positionOf topThird bottomThird word;
             la1 = (case pos of
                      Top \<Rightarrow> la\<lparr>topLines := topLines la @ [lineItem word]\<rparr>
                    | Bottom \<Rightarrow> la\<lparr>bottomLines := bottomLines la @ [lineItem word]\<rparr>
                    | Middle \<Rightarrow> la\<lparr>middleLines := middleLines la @ [lineItem word]\<rparr>)
         in la1\<lparr>allLines := allLines la1 @
                    [\<lparr>pi_text = w_text word, pi_bbox = w_bbox word, pi_position = pos\<rparr>],
                 largestText := largestText la1 @ [sizedItem word]\<rparr>))"

text \<open>The tokens the forEach does not skip.\<close>

definition nonBlank :: "OcrWord \<Rightarrow> bool" where
  "nonBlank word \<longleftrightarrow> trim (w_text word) \<noteq> []"

definition bySizeDescending :: "SizedItem \<Rightarrow> SizedItem \<Rightarrow> rat" where
  "bySizeDescending a b = si_size b - si_size a"

text \<open>analyzeCardLayout throws on an empty word list. Coordinates are rationals.\<close>

definition analyzeCardLayout :: "OCRResult \<Rightarrow> js_error + LayoutAnalysis" where
  "analyzeCardLayout ocrResult =
     (case ocr_words ocrResult of
        [] \<Rightarrow> Inl ''No word data available for layout analysis''
      | w # ws \<Rightarrow>
          (let minX = fold min (map (\<lambda>b. x0 (w_bbox b)) ws) (x0 (w_bbox w));
               maxX = fold max (map (\<lambda>b. x1 (w_bbox b)) ws) (x1 (w_bbox w));
               minY = fold min (map (\<lambda>b. y0 (w_bbox b)) ws) (y0 (w_bbox w));
               maxY = fold max (map (\<lambda>b. y1 (w_bbox b)) ws) (y1 (w_bbox w));
               cardW = maxX - minX;
               cardH = maxY - minY;
               topThird = minY + cardH / 3;
               bottomThird = minY + 2 * cardH / 3;
               la = fold (placeWord topThird bottomThird) (w # ws)
                      \<lparr>topLines = [], middleLines = [], bottomLines = [], largestText = [],
                       allLines = [], cardHeight = cardH, cardWidth = cardW\<rparr>
           in Inr (la\<lparr>largestText := sortBy bySizeDescending (largestText la)\<rparr>)))"

text \<open>The two thresholds analyzeCardLayout computes from the vertical extent of the
  tokens.\<close>

definition verticalThirds :: "OcrWord list \<Rightarrow> rat \<times> rat" where
  "verticalThirds ws =
     (case ws of
        [] \<Rightarrow> (0, 0)
      | w # rest \<Rightarrow>
          (let minY = fold min (map (\<lambda>b. y0 (w_bbox b)) rest) (y0 (w_bbox w));
               maxY = fold max (map (\<lambda>b. y1 (w_bbox b)) rest) (y1 (w_bbox w));
               cardH = maxY - minY
           in (minY + cardH / 3, minY + 2 * cardH / 3)))"

definition regionOf :: "OCRResult \<Rightarrow> OcrWord \<Rightarrow> position" where
  "regionOf r word =
     positionOf (fst (verticalThirds (ocr_words r))) (snd (verticalThirds (ocr_words r))) word"

text \<open>
  The phone parser, the company parser and the address extraction are taken as
  parameters: their results are copied into the record and read by none of the
  functions below except where a line is compared with the company text.
\<close>

record PhoneParseResult =
  pp_formatted :: string
  pp_confidence :: int

record CompanyParseResult =
  cp_company :: string
  cp_confidence :: int

record Parsers =
  primaryPhone :: "string \<Rightarrow> PhoneParseResult option"
  extractCompany :: "string \<Rightarrow> string option \<Rightarrow> string option \<Rightarrow> CompanyParseResult option"
  extractAddress :: "string list \<Rightarrow> Address option"

datatype candidate_source = Pattern | Layout | Context

record FieldCandidate =
  cand_text :: string
  cand_confidence :: int
  cand_source :: candidate_source
  cand_priority :: int
  cand_reasons :: "string list"

text \<open>An assignment to a property of \<open>contactData.fieldConfidences\<close>, which every record
  built by this service has.\<close>

definition setConf :: "(FieldConfidences \<Rightarrow> FieldConfidences) \<Rightarrow> ContactData \<Rightarrow> ContactData" where
  "setConf f c = c\<lparr>fieldConfidences := map_option f (fieldConfidences c)\<rparr>"

text \<open>The email half of detectContactInfoWithStructure and of parseContactDataBasic.\<close>

definition detectEmail :: "string \<Rightarrow> ContactData \<Rightarrow> js_error + ContactData" where
  "detectEmail txt c =
     (case extractEmails txt of
        Inl e \<Rightarrow> Inl e
      | Inr emailResults \<Rightarrow>
          (case getPrimaryEmail emailResults of
             None \<Rightarrow> Inr c
           | Some primaryEmail \<Rightarrow>
               Inr (setConf (\<lambda>f. f\<lparr>fc_email := Some (ep_confidence primaryEmail),
                                     fc_website := Some (max 80 (ep_confidence primaryEmail - 10))\<rparr>)
                      (c\<lparr>email := Some (ep_email primaryEmail),
                         website := Some (deriveWebsite (ep_email primaryEmail))\<rparr>))))"

definition detectPhone :: "Parsers \<Rightarrow> string \<Rightarrow> ContactData \<Rightarrow> ContactData" where
  "detectPhone ps txt c =
     (case primaryPhone ps txt of
        None \<Rightarrow> c
      | Some p \<Rightarrow> setConf (\<lambda>f. f\<lparr>fc_phone := Some (pp_confidence p)\<rparr>)
                    (c\<lparr>phone := Some (pp_formatted p)\<rparr>))"

definition detectContactInfoWithStructure ::
  "Parsers \<Rightarrow> string \<Rightarrow> ContactData \<Rightarrow> js_error + ContactData" where
  "detectContactInfoWithStructure ps txt c =
     (case detectEmail txt c of Inl e \<Rightarrow> Inl e | Inr c1 \<Rightarrow> Inr (detectPhone ps txt c1))"

text \<open>The name and company steps shared by detectFieldsWithStructure and
  parseContactDataBasic.\<close>

definition detectName :: "ContactData \<Rightarrow> ContactData" where
  "detectName c =
     (case extractName (raw_text c) None of
        None \<Rightarrow> c
      | Some nameResult \<Rightarrow>
          (let c1 = setConf (\<lambda>f. f\<lparr>fc_name := Some (np_confidence nameResult)\<rparr>)
                      (c\<lparr>name := Some (np_name nameResult)\<rparr>)
           in if truthy (np_title nameResult)
              then setConf (\<lambda>f. f\<lparr>fc_title := Some (max 70 (np_confidence nameResult - 10))\<rparr>)
                     (c1\<lparr>title := np_title nameResult\<rparr>)
              else c1))"

definition detectCompany :: "Parsers \<Rightarrow> ContactData \<Rightarrow> ContactData" where
  "detectCompany ps c =
     (case extractCompany ps (raw_text c) (name c) (title c) of
        None \<Rightarrow> c
      | Some companyResult \<Rightarrow>
          setConf (\<lambda>f. f\<lparr>fc_company := Some (cp_confidence companyResult)\<rparr>)
            (c\<lparr>company := Some (cp_company companyResult)\<rparr>))"

definition layoutTitleKeywords :: "string list" where
  "layoutTitleKeywords =
    [''ceo'', ''cto'', ''cfo'', ''president'', ''vice president'', ''vp'', ''director'',
     ''manager'', ''senior'', ''lead'', ''head'', ''chief'', ''principal'', ''associate'',
     ''coordinator'', ''specialist'', ''analyst'', ''consultant'', ''engineer'',
     ''developer'', ''designer'', ''architect'', ''supervisor'', ''executive'']"

text \<open>One round of the forEach of getTitleCandidates; \<open>inMiddle\<close> is
  \<open>layout.middleLines.includes(item)\<close>, true exactly for the items taken from
  middleLines.\<close>

definition titleCandidate :: "bool \<Rightarrow> LineItem \<Rightarrow> FieldCandidate list" where
  "titleCandidate inMiddle item =
     (let txt = trim (li_text item);
          lowerText = toLowerCase txt;
          matchingKeywords = filter (\<lambda>kw. js_includes lowerText kw) layoutTitleKeywords
      in if length matchingKeywords > 0 \<and> length txt > 2 \<and> length txt < 40 \<and>
            \<not> js_includes txt ''@'' \<and> \<not> hasThreeDigits txt
         then
           (let conf0 = 70 + int (length matchingKeywords) * 10;
                conf1 = (if inMiddle then conf0 + 15 else conf0)
            in [\<lparr>cand_text = txt, cand_confidence = min conf1 95, cand_source = Pattern,
                  cand_priority = conf1,
                  cand_reasons =
                    (''Contains title keywords: '' @ js_join '', '' matchingKeywords) #
                    (if inMiddle then [''Located in middle section''] else [])\<rparr>])
         else [])"

definition byPriorityDescending :: "FieldCandidate \<Rightarrow> FieldCandidate \<Rightarrow> int" where
  "byPriorityDescending a b = cand_priority b - cand_priority a"

definition getTitleCandidates :: "LayoutAnalysis \<Rightarrow> FieldCandidate list" where
  "getTitleCandidates layout =
     sortBy byPriorityDescending
       (concat (map (titleCandidate True) (middleLines layout)) @
        concat (map (titleCandidate False) (topLines layout)) @
        concat (map (titleCandidate False) (bottomLines layout)))"

text \<open>selectBestFieldCandidate for the field type title, the only one it is called
  with.\<close>

definition selectBestTitleCandidate :: "FieldCandidate list \<Rightarrow> ContactData \<Rightarrow> ContactData" where
  "selectBestTitleCandidate candidates c =
     (case filter (\<lambda>cand. cand_confidence cand \<ge> 60) candidates of
        [] \<Rightarrow> c
      | bestCandidate # _ \<Rightarrow>
          setConf (\<lambda>f. f\<lparr>fc_title := Some (cand_confidence bestCandidate)\<rparr>)
            (c\<lparr>title := Some (cand_text bestCandidate)\<rparr>))"

definition calculateAddressConfidence :: "Address \<Rightarrow> int" where
  "calculateAddressConfidence a =
     min ((if truthy (street a) then 30 else 0) + (if truthy (city a) then 25 else 0) +
          (if truthy (state a) then 20 else 0) + (if truthy (zip a) then 25 else 0)) 95"

definition detectFieldsWithStructure ::
  "Parsers \<Rightarrow> LayoutAnalysis \<Rightarrow> string list \<Rightarrow> ContactData \<Rightarrow> ContactData" where
  "detectFieldsWithStructure ps layout lines c =
     (let c1 = detectName c;
          c2 = detectCompany ps c1;
          c3 = (if \<not> truthy (title c2)
                then selectBestTitleCandidate (getTitleCandidates layout) c2 else c2)
      in case extractAddress ps lines of
           None \<Rightarrow> c3
         | Some addressData \<Rightarrow>
             setConf (\<lambda>f. f\<lparr>fc_address := Some (calculateAddressConfidence addressData)\<rparr>)
               (c3\<lparr>address := Some addressData\<rparr>))"

text \<open>The keyword lists local to rules 1 and 3 of validateAndCleanFields.\<close>

definition arbiterTitleKeywords :: "string list" where
  "arbiterTitleKeywords =
     [''ceo'', ''cto'', ''cfo'', ''president'', ''vp'', ''director'', ''manager'']"

definition arbiterBusinessKeywords :: "string list" where
  "arbiterBusinessKeywords = [''llc'', ''inc'', ''corp'', ''company'']"

text \<open>The condition of rule 1 on the name text.\<close>

definition nameHasTitleKeyword :: "ContactData \<Rightarrow> bool" where
  "nameHasTitleKeyword c \<longleftrightarrow>
     list_ex (\<lambda>kw. js_includes (toLowerCase (the_default [] (name c))) kw) arbiterTitleKeywords"

text \<open>Two optional texts are both set and equal up to case.\<close>

definition sameTextIgnoringCase :: "string option \<Rightarrow> string option \<Rightarrow> bool" where
  "sameTextIgnoringCase a b \<longleftrightarrow>
     truthy a \<and> truthy b \<and> toLowerCase (the_default [] a) = toLowerCase (the_default [] b)"

text \<open>A comparison \<open>x < bound\<close> with \<open>x\<close> possibly undefined: false when undefined.\<close>

definition confBelow :: "int option \<Rightarrow> int \<Rightarrow> bool" where
  "confBelow v bound = (case v of None \<Rightarrow> False | Some x \<Rightarrow> x < bound)"

text \<open>The four rules of validateAndCleanFields, each on the record and its
  fieldConfidences.\<close>

definition rule1 :: "ContactData \<times> FieldConfidences \<Rightarrow> ContactData \<times> FieldConfidences" where
  "rule1 cf =
     (case cf of (c, f) \<Rightarrow>
        if truthy (name c) \<and> truthy (title c) \<and>
           list_ex (\<lambda>kw. js_includes (toLowerCase (the_default [] (name c))) kw)
             arbiterTitleKeywords
        then (c\<lparr>name := None\<rparr>, f\<lparr>fc_name := Some 0\<rparr>)
        else (c, f))"

definition rule2 :: "ContactData \<times> FieldConfidences \<Rightarrow> ContactData \<times> FieldConfidences" where
  "rule2 cf =
     (case cf of (c, f) \<Rightarrow>
        if truthy (name c) \<and> truthy (company c) \<and>
           toLowerCase (the_default [] (name c)) = toLowerCase (the_default [] (company c))
        then (c\<lparr>company := None\<rparr>, f\<lparr>fc_company := Some 0\<rparr>)
        else (c, f))"

definition rule3 :: "ContactData \<times> FieldConfidences \<Rightarrow> ContactData \<times> FieldConfidences" where
  "rule3 cf =
     (case cf of (c, f) \<Rightarrow>
        if truthy (title c) \<and>
           list_ex (\<lambda>kw. js_includes (toLowerCase (the_default [] (title c))) kw)
             arbiterBusinessKeywords \<and>
           \<not> truthy (company c) \<and> confBelow (fc_title f) 80
        then (c\<lparr>company := title c, title := None\<rparr>,
              f\<lparr>fc_company := fc_title f, fc_title := Some 0\<rparr>)
        else (c, f))"

definition rule4 :: "ContactData \<times> FieldConfidences \<Rightarrow> ContactData \<times> FieldConfidences" where
  "rule4 cf =
     (case cf of (c, f) \<Rightarrow>
        (let c1 = (if confBelow (fc_name f) 50 then c\<lparr>name := None\<rparr> else c);
             c2 = (if confBelow (fc_title f) 60 then c1\<lparr>title := None\<rparr> else c1);
             c3 = (if confBelow (fc_company f) 50 then c2\<lparr>company := None\<rparr> else c2)
         in (c3, f)))"

text \<open>validateAndCleanFields. Rule 4 reads \<open>contactData.fieldConfidences.name\<close>, which
  throws when the record has no fieldConfidences.\<close>

definition validateAndCleanFields :: "ContactData \<Rightarrow> js_error + ContactData" where
  "validateAndCleanFields c =
     (case fieldConfidences c of
        None \<Rightarrow> Inl ''TypeError: Cannot read properties of undefined (reading name)''
      | Some f \<Rightarrow>
          (case rule4 (rule3 (rule2 (rule1 (c, f)))) of
             (c', f') \<Rightarrow> Inr (c'\<lparr>fieldConfidences := Some f'\<rparr>)))"

definition freshContact :: "string \<Rightarrow> int \<Rightarrow> ContactData" where
  "freshContact txt conf =
     \<lparr>name = None, title = None, company = None, phone = None, email = None, website = None,
      address = None, raw_text = txt, confidence = conf,
      fieldConfidences = Some noConfidences\<rparr>"

definition detectFieldsWithLayout ::
  "Parsers \<Rightarrow> LayoutAnalysis \<Rightarrow> string list \<Rightarrow> string \<Rightarrow> js_error + ContactData" where
  "detectFieldsWithLayout ps layoutAnalysis lines txt =
     (case detectContactInfoWithStructure ps txt (freshContact txt 75) of
        Inl e \<Rightarrow> Inl e
      | Inr c1 \<Rightarrow> validateAndCleanFields (detectFieldsWithStructure ps layoutAnalysis lines c1))"

definition basicTitleKeywords :: "string list" where
  "basicTitleKeywords =
     layoutTitleKeywords @ [''marketing director'', ''senior software engineer'', ''software engineer'']"

text \<open>The fallback title loop of parseContactDataBasic: the first line that qualifies.\<close>

definition isFallbackTitle :: "ContactData \<Rightarrow> string \<Rightarrow> bool" where
  "isFallbackTitle c line \<longleftrightarrow>
     list_ex (\<lambda>keyword. js_includes (toLowerCase line) keyword) basicTitleKeywords \<and>
     Some line \<noteq> name c \<and> Some line \<noteq> company c \<and>
     \<not> js_includes line ''@'' \<and> \<not> hasThreeDigits line \<and>
     length line > 2 \<and> length line < 50"

definition fallbackTitle :: "string list \<Rightarrow> ContactData \<Rightarrow> ContactData" where
  "fallbackTitle lines c =
     (case find (isFallbackTitle c) lines of
        None \<Rightarrow> c
      | Some line \<Rightarrow> setConf (\<lambda>f. f\<lparr>fc_title := Some 75\<rparr>) (c\<lparr>title := Some line\<rparr>))"

definition parseContactDataBasic :: "Parsers \<Rightarrow> OCRResult \<Rightarrow> js_error + ContactData" where
  "parseContactDataBasic ps ocrResult =
     (let txt = ocr_text ocrResult; lines = linesOf txt in
      case detectEmail txt (freshContact txt (ocr_confidence ocrResult)) of
        Inl e \<Rightarrow> Inl e
      | Inr c1 \<Rightarrow>
          (let c2 = detectPhone ps txt c1;
               c3 = detectName c2;
               c4 = detectCompany ps c3;
               c5 = (if \<not> truthy (title c4) then fallbackTitle lines c4 else c4)
           in case extractAddress ps lines of
                None \<Rightarrow> Inr c5
              | Some addressData \<Rightarrow> Inr (c5\<lparr>address := Some addressData\<rparr>)))"

text \<open>parseContactDataWithLayout: whatever analyzeCardLayout or detectFieldsWithLayout
  throws is caught, and the basic parser runs instead.\<close>

definition parseContactDataWithLayout :: "Parsers \<Rightarrow> OCRResult \<Rightarrow> js_error + ContactData" where
  "parseContactDataWithLayout ps ocrResult =
     (let txt = ocr_text ocrResult; lines = linesOf txt in
      case analyzeCardLayout ocrResult of
        Inl _ \<Rightarrow> parseContactDataBasic ps ocrResult
      | Inr layoutAnalysis \<Rightarrow>
          (case detectFieldsWithLayout ps layoutAnalysis lines txt of
             Inl _ \<Rightarrow> parseContactDataBasic ps ocrResult
           | Inr contactData \<Rightarrow> Inr contactData))"

text \<open>The relation between the email and the website of a record: the address has one
  \<open>@\<close> and the website is www. followed by what comes after it.\<close>

definition websiteFollowsEmail :: "ContactData \<Rightarrow> bool" where
  "websiteFollowsEmail c =
     (case email c of
        None \<Rightarrow> True
      | Some e \<Rightarrow> length (filter isAt e) = 1 \<and> website c = Some (''www.'' @ substringAfterAt e))"

text \<open>A step of the pipeline leaves the email, the website and the raw text of the
  record as they are, and does not remove its fieldConfidences.\<close>

definition keepsEmail :: "ContactData \<Rightarrow> ContactData \<Rightarrow> bool" where
  "keepsEmail c c' \<longleftrightarrow> email c' = email c \<and> website c' = website c
     \<and> raw_text c' = raw_text c
     \<and> (fieldConfidences c \<noteq> None \<longrightarrow> fieldConfidences c' \<noteq> None)"

section \<open>The email step of the cloud backend (googleVisionService.ts)\<close>

text \<open>The class \<open>[a-zA-Z0-9._%+-]\<close> and the expression
  \<open>[a-zA-Z0-9._%+-]+@[a-zA-Z0-9.-]+\.[a-zA-Z]{2,}\<close> of extractFieldsFromText.\<close>

definition visionUserChar :: "char \<Rightarrow> bool" where
  "visionUserChar c \<longleftrightarrow>
     isAlnum c \<or> c = CHR ''.'' \<or> c = CHR ''_'' \<or> c = CHR ''%'' \<or> c = CHR ''+'' \<or> c = CHR ''-''"

definition visionEmailRx :: regex where
  "visionEmailRx =
     Seq ([Rep visionUserChar 1 None] @ [Chr isAt] @
          [Rep domainChar 1 None, Chr isDot, Rep isLetter 2 None])"

text \<open>\<open>text.match(emailRegex)\<close> without the global flag: the first match. The website is
  built from \<open>emailMatch[0].split('@')[1]\<close> as in deriveWebsite.\<close>

definition visionDetectEmail :: "string \<Rightarrow> ContactData \<Rightarrow> ContactData" where
  "visionDetectEmail txt c =
     (case execAll visionEmailRx txt of
        [] \<Rightarrow> c
      | emailMatch # _ \<Rightarrow>
          setConf (\<lambda>f. f\<lparr>fc_email := Some 98, fc_website := Some 95\<rparr>)
            (c\<lparr>email := Some emailMatch, website := Some (deriveWebsite emailMatch)\<rparr>))"

section \<open>Sample inputs\<close>

text \<open>Parsers that find nothing, and a token with confidence 90.\<close>

definition noParsers :: Parsers where
  "noParsers = \<lparr>primaryPhone = (\<lambda>_. None), extractCompany = (\<lambda>_ _ _. None),
     extractAddress = (\<lambda>_. None)\<rparr>"

definition token :: "string \<Rightarrow> rat \<Rightarrow> rat \<Rightarrow> rat \<Rightarrow> rat \<Rightarrow> OcrWord" where
  "token t a b c d =
     \<lparr>w_text = t, w_confidence = 90, w_bbox = \<lparr>x0 = a, y0 = b, x1 = c, y1 = d\<rparr>\<rparr>"

text \<open>A record entering validateAndCleanFields with the given name, title and company and
  their confidences.\<close>

definition candidateRecord ::
  "(string \<times> int) option \<Rightarrow> (string \<times> int) option \<Rightarrow> (string \<times> int) option \<Rightarrow> ContactData" where
  "candidateRecord n t c =
     \<lparr>name = map_option fst n, title = map_option fst t, company = map_option fst c,
      phone = None, email = None, website = None, address = None, raw_text = [],
      confidence = 75,
      fieldConfidences = Some (noConfidences\<lparr>fc_name := map_option snd n,
        fc_title := map_option snd t, fc_company := map_option snd c\<rparr>)\<rparr>"

text \<open>Two tokens on one line, the second of them a blank.\<close>

definition blankTokenCard :: OCRResult where
  "blankTokenCard =
     \<lparr>ocr_text = ''John'', ocr_confidence = 88,
      ocr_words = [token ''John'' 0 0 40 10, token '' '' 40 0 45 10]\<rparr>"

text \<open>Three tokens, of heights 10, 12 and 10.\<close>

definition threeTokenCard :: OCRResult where
  "threeTokenCard =
     \<lparr>ocr_text = ''Acme John Smith'', ocr_confidence = 88,
      ocr_words = [token ''Acme'' 0 0 40 10, token ''John'' 0 20 40 32,
                   token ''Smith'' 50 40 90 50]\<rparr>"

definition threeTokenLayout :: LayoutAnalysis where
  "threeTokenLayout =
     \<lparr>topLines = [lineItem (token ''Acme'' 0 0 40 10)],
      middleLines = [lineItem (token ''John'' 0 20 40 32)],
      bottomLines = [lineItem (token ''Smith'' 50 40 90 50)],
      largestText = [sizedItem (token ''John'' 0 20 40 32), sizedItem (token ''Acme'' 0 0 40 10),
                     sizedItem (token ''Smith'' 50 40 90 50)],
      allLines =
        [\<lparr>pi_text = ''Acme'', pi_bbox = \<lparr>x0 = 0, y0 = 0, x1 = 40, y1 = 10\<rparr>,
           pi_position = Top\<rparr>,
         \<lparr>pi_text = ''John'', pi_bbox = \<lparr>x0 = 0, y0 = 20, x1 = 40, y1 = 32\<rparr>,
           pi_position = Middle\<rparr>,
         \<lparr>pi_text = ''Smith'', pi_bbox = \<lparr>x0 = 50, y0 = 40, x1 = 90, y1 = 50\<rparr>,
           pi_position = Bottom\<rparr>],
      cardHeight = 50, cardWidth = 90\<rparr>"

text \<open>A card with an address, with and without tokens.\<close>

definition emailCard :: OCRResult where
  "emailCard =
     \<lparr>ocr_text = ''jane@acme.org'', ocr_confidence = 88,
      ocr_words = [token ''jane@acme.org'' 0 0 90 10]\<rparr>"



text \<open>The records the pipeline returns for these cards.\<close>

definition emailRecord :: "int \<Rightarrow> ContactData" where
  "emailRecord conf =
     \<lparr>name = None, title = None, company = None, phone = None,
      email = Some ''jane@acme.org'', website = Some ''www.acme.org'', address = None,
      raw_text = ''jane@acme.org'', confidence = conf,
      fieldConfidences = Some (noConfidences\<lparr>fc_email := Some 100, fc_website := Some 90\<rparr>)\<rparr>"





section \<open>Properties of the orchestrator\<close>

lemma probes_sel:
  "checkNetworkConnectivity (probes b r) = b"
  "checkServiceAccountAvailable (probes b r) = False"
  "remainingRequests (probes b r) = r"
  by (simp_all add: probes_def checkNetworkConnectivity_def checkServiceAccountAvailable_def)

lemma sampleConfig_sel:
  "forceOfflineMode sampleConfig = False"
  "forceOfflineMode (sampleConfig\<lparr>googleVisionApiKey := k\<rparr>) = False"
  "forceOfflineMode (sampleConfig\<lparr>forceOfflineMode := f\<rparr>) = f"
  by (simp_all add: sampleConfig_def)

lemma sampleConfig_credentials:
  "credentialsMissing sampleConfig (probes b r) = False"
  "credentialsMissing (sampleConfig\<lparr>forceOfflineMode := f\<rparr>) (probes b r) = False"
  "credentialsMissing (sampleConfig\<lparr>googleVisionApiKey := None\<rparr>) (probes b r) = True"
  by (simp_all add: credentialsMissing_def probes_sel truthy_def sampleConfig_def)

text \<open>
  C2. determineStrategy tests its conditions in the order forced-offline, missing
  credentials, network unreachable, quota exhausted: each condition, when the earlier ones
  do not hold, fixes the strategy whatever the later ones are, and when none holds the
  strategy is the cloud backend with the local backend as fallback.
\<close>

theorem determineStrategy_precedence:
  "(forceOfflineMode cfg \<longrightarrow>
      determineStrategy cfg env = localOnly ''Force offline mode enabled'')
 \<and> (\<not> forceOfflineMode cfg \<and> credentialsMissing cfg env \<longrightarrow>
      determineStrategy cfg env =
        localOnly ''Google Vision API not configured (no API key or service account)'')
 \<and> (\<not> forceOfflineMode cfg \<and> \<not> credentialsMissing cfg env
      \<and> \<not> checkNetworkConnectivity env \<longrightarrow>
      determineStrategy cfg env = localOnly ''Network connectivity unavailable'')
 \<and> (\<not> forceOfflineMode cfg \<and> \<not> credentialsMissing cfg env
      \<and> checkNetworkConnectivity env \<and> remainingRequests env \<le> 0 \<longrightarrow>
      determineStrategy cfg env = localOnly ''Google Vision API monthly limit reached'')
 \<and> (\<not> forceOfflineMode cfg \<and> \<not> credentialsMissing cfg env
      \<and> checkNetworkConnectivity env \<and> \<not> remainingRequests env \<le> 0 \<longrightarrow>
      determineStrategy cfg env =
        \<lparr>primary = GoogleVision, fallback = FallbackTesseract,
         reason = ''Optimal accuracy and speed''\<rparr>)"
  by (simp add: determineStrategy_def credentialsMissing_def localOnly_def)

theorem determineStrategy_precedence_witness:
  "determineStrategy (sampleConfig\<lparr>forceOfflineMode := True\<rparr>) (probes True 5)
     = localOnly ''Force offline mode enabled''
 \<and> determineStrategy (sampleConfig\<lparr>googleVisionApiKey := None\<rparr>) (probes False 0)
     = localOnly ''Google Vision API not configured (no API key or service account)''
 \<and> determineStrategy sampleConfig (probes False 0)
     = localOnly ''Network connectivity unavailable''
 \<and> determineStrategy sampleConfig (probes True 0)
     = localOnly ''Google Vision API monthly limit reached''
 \<and> determineStrategy sampleConfig (probes True 5)
     = \<lparr>primary = GoogleVision, fallback = FallbackTesseract,
         reason = ''Optimal accuracy and speed''\<rparr>"
  using determineStrategy_precedence [of "sampleConfig\<lparr>forceOfflineMode := True\<rparr>" "probes True 5"]
    determineStrategy_precedence [of "sampleConfig\<lparr>googleVisionApiKey := None\<rparr>" "probes False 0"]
    determineStrategy_precedence [of sampleConfig "probes False 0"]
    determineStrategy_precedence [of sampleConfig "probes True 0"]
    determineStrategy_precedence [of sampleConfig "probes True 5"]
  by (simp add: probes_sel sampleConfig_sel sampleConfig_credentials)






section \<open>Properties of the email scoring\<close>

lemma split_john: "js_split CHR ''@'' ''john@gmail.com'' = [''john'', ''gmail.com'']"
  by code_simp

lemma split_ann: "js_split CHR ''@'' ''ann@acme.xyz'' = [''ann'', ''acme.xyz'']"
  by code_simp

lemma tld_gmail: "hasValidTLD ''gmail.com''"
  by code_simp

lemma tld_xyz: "\<not> hasValidTLD ''acme.xyz''"
  by code_simp

lemma formatScore_john: "formatScore ''john'' ''gmail.com'' 80 = 80"
  by code_simp

lemma formatScore_ann: "formatScore ''ann'' ''acme.xyz'' 95 = 95"
  by code_simp

lemma laterAdjustments_john: "laterAdjustments ''john@gmail.com'' False = 0"
  by code_simp

lemma laterAdjustments_ann: "laterAdjustments ''ann@acme.xyz'' False = 10"
  by code_simp

lemma score_john:
  "validateAndScore ''john@gmail.com'' 80 False =
     Inr \<lparr>ep_email = ''john@gmail.com'', ep_confidence = 80, ep_isPrimary = False,
          ep_domain = ''gmail.com'', ep_isValid = True, ep_corrections = None\<rparr>"
  by code_simp

lemma score_ann:
  "validateAndScore ''ann@acme.xyz'' 95 False =
     Inr \<lparr>ep_email = ''ann@acme.xyz'', ep_confidence = 90, ep_isPrimary = True,
          ep_domain = ''acme.xyz'', ep_isValid = True, ep_corrections = None\<rparr>"
  by code_simp

lemma split_short: "js_split CHR ''@'' ''a@b'' = [''a'', ''b'']"
  by code_simp

lemma tld_short: "\<not> hasValidTLD ''b''"
  by code_simp

lemma formatScore_short: "formatScore ''a'' ''b'' 95 = 0"
  by code_simp

lemma laterAdjustments_short: "laterAdjustments ''a@b'' False = 10"
  by code_simp

lemma score_short:
  "validateAndScore ''a@b'' 95 False =
     Inr \<lparr>ep_email = ''a@b'', ep_confidence = 10, ep_isPrimary = True,
          ep_domain = ''b'', ep_isValid = False, ep_corrections = None\<rparr>"
  by code_simp

text \<open>
  C7, as the code has it. For an address with a domain part, validateAndScore returns a
  result whose confidence is the clamped sum of the score before the allow-list check, the
  allow-list adjustment and the later adjustments. The allow-list adjustment is 0 when
  the top-level domain or the last two labels are in the allow-list, and -15 when neither
  is and the score before the check is positive. The only +10 is the later bonus for an
  address outside the free-mail domains.
\<close>

theorem validateAndScore_allow_list:
  assumes "js_split CHR ''@'' addr = username # domain # rest"
  shows "\<exists>r. validateAndScore addr base had = Inr r
     \<and> (hasValidTLD domain \<longrightarrow>
          ep_confidence r =
            max 0 (min 100 (formatScore username domain base + laterAdjustments addr had)))
     \<and> (\<not> hasValidTLD domain \<and> 0 < formatScore username domain base \<longrightarrow>
          ep_confidence r =
            max 0 (min 100 (formatScore username domain base - 15 + laterAdjustments addr had)))
     \<and> (\<not> hasValidTLD domain \<and> formatScore username domain base \<le> 0 \<longrightarrow>
          ep_confidence r =
            max 0 (min 100 (formatScore username domain base + laterAdjustments addr had)))"
  using assms
  by (simp add: validateAndScore_def Let_def formatScore_def laterAdjustments_def)

theorem validateAndScore_allow_list_witness:
  "js_split CHR ''@'' ''john@gmail.com'' = [''john'', ''gmail.com'']
 \<and> hasValidTLD ''gmail.com''
 \<and> map_sum id ep_confidence (validateAndScore ''john@gmail.com'' 80 False) = Inr 80
 \<and> js_split CHR ''@'' ''ann@acme.xyz'' = [''ann'', ''acme.xyz'']
 \<and> \<not> hasValidTLD ''acme.xyz'' \<and> 0 < formatScore ''ann'' ''acme.xyz'' 95
 \<and> map_sum id ep_confidence (validateAndScore ''ann@acme.xyz'' 95 False) = Inr 90
 \<and> js_split CHR ''@'' ''a@b'' = [''a'', ''b'']
 \<and> \<not> hasValidTLD ''b'' \<and> formatScore ''a'' ''b'' 95 \<le> 0
 \<and> map_sum id ep_confidence (validateAndScore ''a@b'' 95 False) = Inr 10"
  using validateAndScore_allow_list [OF split_john, of 80 False]
    validateAndScore_allow_list [OF split_ann, of 95 False]
    validateAndScore_allow_list [OF split_short, of 95 False]
  by (simp add: split_john split_ann split_short tld_gmail tld_xyz tld_short
      formatScore_john formatScore_ann formatScore_short
      laterAdjustments_john laterAdjustments_ann laterAdjustments_short
      score_john score_ann score_short)

text \<open>
  C7 as stated fails: the domain gmail.com ends in com, which is in the allow-list, and an
  address scored from the base 80 keeps the confidence 80, not 90.
\<close>

theorem validateAndScore_allow_list_counterexample:
  "hasValidTLD ''gmail.com''
 \<and> validateAndScore ''john@gmail.com'' 80 False =
     Inr \<lparr>ep_email = ''john@gmail.com'', ep_confidence = 80, ep_isPrimary = False,
          ep_domain = ''gmail.com'', ep_isValid = True, ep_corrections = None\<rparr>"
  by (simp add: tld_gmail score_john)

section \<open>Properties of the name validation\<close>

lemma validate_five_words: "validateName ''alpha beta gamma delta epsilon'' = (True, - 10)"
  by code_simp

lemma count_five_words: "length (wordsOf ''alpha beta gamma delta epsilon'') = 5"
  by code_simp

lemma pattern_five_words: "\<not> matchesNamePattern ''alpha beta gamma delta epsilon''"
  by code_simp

lemma lengths_five_words: "\<not> hasOddWordLength ''alpha beta gamma delta epsilon''"
  by code_simp

lemma extract_five_words:
  "map_option (\<lambda>r. (np_name r, np_confidence r, np_isValid r))
     (extractName ''alpha beta gamma delta epsilon'' None)
   = Some (''Alpha Beta Gamma Delta Epsilon'', 50, True)"
  by code_simp

text \<open>
  C8, as the code has it. validateName accepts a candidate exactly when it has at least two
  space-delimited tokens and contains no digit. More than four tokens lower the confidence
  boost by 10 and do not reject; matching one of the capitalised name patterns adds 20 and
  is not required.
\<close>

theorem validateName_accepts:
  "fst (validateName nm) = (2 \<le> length (wordsOf nm) \<and> \<not> hasDigit nm)
 \<and> (fst (validateName nm) \<longrightarrow>
      snd (validateName nm) =
        (if matchesNamePattern nm then 20 else 0)
        - (if length (wordsOf nm) > 4 then 10 else 0)
        - (if hasOddWordLength nm then 5 else 0))"
  by (auto simp add: validateName_def Let_def matchesNamePattern_def hasOddWordLength_def)

theorem validateName_accepts_witness:
  "fst (validateName ''alpha beta gamma delta epsilon'')
 \<and> snd (validateName ''alpha beta gamma delta epsilon'') = - 10"
  using validateName_accepts [of "''alpha beta gamma delta epsilon''"]
  by (simp add: validate_five_words count_five_words pattern_five_words lengths_five_words)

text \<open>
  C8 as stated fails: a line of five lower-case tokens is accepted by validateName, and
  extractName returns it as the name, with confidence 50.
\<close>

theorem validateName_accepts_counterexample:
  "length (wordsOf ''alpha beta gamma delta epsilon'') = 5
 \<and> validateName ''alpha beta gamma delta epsilon'' = (True, - 10)
 \<and> map_option (\<lambda>r. (np_name r, np_confidence r, np_isValid r))
     (extractName ''alpha beta gamma delta epsilon'' None)
   = Some (''Alpha Beta Gamma Delta Epsilon'', 50, True)"
  by (simp add: validate_five_words count_five_words extract_five_words)

section \<open>Properties of the cross-field validation\<close>

lemma name_rule2: "name (fst (rule2 cf)) = name (fst cf)"
  by (cases cf) (simp add: rule2_def)

lemma name_rule3: "name (fst (rule3 cf)) = name (fst cf)"
  by (cases cf) (simp add: rule3_def)

lemma fc_name_rule2: "fc_name (snd (rule2 cf)) = fc_name (snd cf)"
  by (cases cf) (simp add: rule2_def)

lemma fc_name_rule3: "fc_name (snd (rule3 cf)) = fc_name (snd cf)"
  by (cases cf) (simp add: rule3_def)

lemma name_rule4:
  "name (fst (rule4 cf)) = (if confBelow (fc_name (snd cf)) 50 then None else name (fst cf))"
  by (cases cf) (simp add: rule4_def Let_def)

lemma validateAndCleanFields_name:
  assumes "validateAndCleanFields c = Inr c'" and "fieldConfidences c = Some f"
  shows "name c' = (if confBelow (fc_name (snd (rule1 (c, f)))) 50 then None
                    else name (fst (rule1 (c, f))))"
proof -
  obtain c4 f4 where r: "rule4 (rule3 (rule2 (rule1 (c, f)))) = (c4, f4)"
    by (cases "rule4 (rule3 (rule2 (rule1 (c, f))))")
  with assms have "c' = c4\<lparr>fieldConfidences := Some f4\<rparr>"
    by (simp add: validateAndCleanFields_def)
  then have "name c' = name (fst (rule4 (rule3 (rule2 (rule1 (c, f))))))"
    using r by simp
  then show ?thesis
    by (simp add: name_rule4 name_rule3 name_rule2 fc_name_rule3 fc_name_rule2)
qed

text \<open>
  C4, as the code has it. Rule 1 runs only when both the name and the title are set: then a
  name whose lower-cased text contains one of ceo, cto, cfo, president, vp, director,
  manager is cleared. When the title is not set, the rule does not apply, and the name is
  kept unless its confidence is below the floor of 50.
\<close>

theorem validateAndCleanFields_rule1:
  assumes "validateAndCleanFields c = Inr c'"
  shows "(truthy (name c) \<and> truthy (title c) \<and> nameHasTitleKeyword c \<longrightarrow> name c' = None)
       \<and> (\<not> truthy (title c) \<and> \<not> confBelow (Option.bind (fieldConfidences c) fc_name) 50
            \<longrightarrow> name c' = name c)"
proof -
  from assms obtain f where f: "fieldConfidences c = Some f"
    by (cases "fieldConfidences c") (simp_all add: validateAndCleanFields_def)
  note n = validateAndCleanFields_name [OF assms f]
  show ?thesis using n f
    by (auto simp add: rule1_def nameHasTitleKeyword_def confBelow_def)
qed

lemma validate_name_and_title:
  "validateAndCleanFields
     (candidateRecord (Some (''Ceola Brown'', 80)) (Some (''Ceola'', 80)) None)
   = Inr (candidateRecord None (Some (''Ceola'', 80)) None
           \<lparr>fieldConfidences := Some (noConfidences\<lparr>fc_name := Some 0, fc_title := Some 80\<rparr>)\<rparr>)"
  by code_simp

lemma validate_name_only:
  "validateAndCleanFields (candidateRecord (Some (''Ceola Brown'', 80)) None None)
   = Inr (candidateRecord (Some (''Ceola Brown'', 80)) None None)"
  by code_simp

lemma ceola_has_keyword:
  "nameHasTitleKeyword (candidateRecord (Some (''Ceola Brown'', 80)) t None)"
  by (cases t) (code_simp+)

lemma candidateRecord_sel:
  "name (candidateRecord n t c) = map_option fst n"
  "title (candidateRecord n t c) = map_option fst t"
  "company (candidateRecord n t c) = map_option fst c"
  "Option.bind (fieldConfidences (candidateRecord n t c)) fc_name = map_option snd n"
  by (simp_all add: candidateRecord_def)

theorem validateAndCleanFields_rule1_witness:
  "validateAndCleanFields
     (candidateRecord (Some (''Ceola Brown'', 80)) (Some (''Ceola'', 80)) None)
   = Inr (candidateRecord None (Some (''Ceola'', 80)) None
           \<lparr>fieldConfidences := Some (noConfidences\<lparr>fc_name := Some 0, fc_title := Some 80\<rparr>)\<rparr>)
 \<and> truthy (name (candidateRecord (Some (''Ceola Brown'', 80)) (Some (''Ceola'', 80)) None))
 \<and> truthy (title (candidateRecord (Some (''Ceola Brown'', 80)) (Some (''Ceola'', 80)) None))
 \<and> nameHasTitleKeyword
      (candidateRecord (Some (''Ceola Brown'', 80)) (Some (''Ceola'', 80)) None)
 \<and> name (candidateRecord None (Some (''Ceola'', 80)) None
           \<lparr>fieldConfidences := Some (noConfidences\<lparr>fc_name := Some 0, fc_title := Some 80\<rparr>)\<rparr>)
     = None
 \<and> \<not> truthy (title (candidateRecord (Some (''Ceola Brown'', 80)) None None))
 \<and> \<not> confBelow (Option.bind
        (fieldConfidences (candidateRecord (Some (''Ceola Brown'', 80)) None None)) fc_name) 50
 \<and> validateAndCleanFields (candidateRecord (Some (''Ceola Brown'', 80)) None None)
     = Inr (candidateRecord (Some (''Ceola Brown'', 80)) None None)"
  using validateAndCleanFields_rule1 [OF validate_name_and_title]
    validateAndCleanFields_rule1 [OF validate_name_only]
  by (simp add: validate_name_and_title validate_name_only ceola_has_keyword
      candidateRecord_sel truthy_def confBelow_def)

text \<open>
  C4 as stated fails on a record without a title: the name Ceola Brown contains the keyword
  ceo and leaves the validation unchanged.
\<close>

theorem validateAndCleanFields_rule1_counterexample:
  "nameHasTitleKeyword (candidateRecord (Some (''Ceola Brown'', 80)) None None)
 \<and> validateAndCleanFields (candidateRecord (Some (''Ceola Brown'', 80)) None None)
     = Inr (candidateRecord (Some (''Ceola Brown'', 80)) None None)
 \<and> name (candidateRecord (Some (''Ceola Brown'', 80)) None None) = Some ''Ceola Brown''"
  by (simp add: validate_name_only ceola_has_keyword candidateRecord_sel)

text \<open>
  Rule 2 clears a company equal to the name, but rule 3, running after it, can move a title
  into the empty company field without comparing it with the name. Whenever the validated
  record has a name and a company that are equal up to case, the company is the title the
  record came in with.
\<close>

lemma validateAndCleanFields_same_text:
  assumes "validateAndCleanFields c = Inr c'"
    and "sameTextIgnoringCase (name c') (company c')"
  shows "company c' = title c \<and> title c' = None"
proof -
  from assms(1) obtain f where f: "fieldConfidences c = Some f"
    by (cases "fieldConfidences c") (simp_all add: validateAndCleanFields_def)
  obtain c1 f1 where r1: "rule1 (c, f) = (c1, f1)" by (cases "rule1 (c, f)")
  obtain c2 f2 where r2: "rule2 (c1, f1) = (c2, f2)" by (cases "rule2 (c1, f1)")
  obtain c3 f3 where r3: "rule3 (c2, f2) = (c3, f3)" by (cases "rule3 (c2, f2)")
  obtain c4 f4 where r4: "rule4 (c3, f3) = (c4, f4)" by (cases "rule4 (c3, f3)")
  from assms(1) f r1 r2 r3 r4 have c': "c' = c4\<lparr>fieldConfidences := Some f4\<rparr>"
    by (simp add: validateAndCleanFields_def)
  have t1: "title c1 = title c" and n1: "name c1 = None \<or> name c1 = name c"
    using r1 by (auto simp add: rule1_def split: if_splits)
  have t2: "title c2 = title c1" and n2: "name c2 = name c1"
    and s2: "\<not> sameTextIgnoringCase (name c2) (company c2)"
    using r2 by (auto simp add: rule2_def sameTextIgnoringCase_def truthy_def split: if_splits)
  have n4: "name c4 = None \<or> name c4 = name c3"
    and k4: "company c4 = None \<or> company c4 = company c3"
    and t4: "title c4 = None \<or> title c4 = title c3"
    using r4 by (auto simp add: rule4_def Let_def split: if_splits)
  have same4: "sameTextIgnoringCase (name c4) (company c4)" using assms(2) c' by simp
  then have "name c4 \<noteq> None" "company c4 \<noteq> None"
    by (auto simp add: sameTextIgnoringCase_def truthy_def split: option.splits)
  with n4 k4 have e: "name c4 = name c3" "company c4 = company c3" by auto
  have n3: "name c3 = name c2" using r3 by (auto simp add: rule3_def split: if_splits)
  have "company c3 = title c2 \<and> title c3 = None"
  proof (rule ccontr)
    assume "\<not> ?thesis"
    then have "c3 = c2" using r3 by (auto simp add: rule3_def split: if_splits)
    with same4 e n3 s2 show False by simp
  qed
  with t4 e t2 t1 c' show ?thesis by auto
qed


section \<open>Properties of the layout analysis\<close>

lemma insertBy_bySize:
  "insertBy bySizeDescending x ys = insort_key (\<lambda>e. - si_size e) x ys"
  by (induction ys) (simp_all add: bySizeDescending_def)

lemma sortBy_bySize: "sortBy bySizeDescending xs = sort_key (\<lambda>e. - si_size e) xs"
proof -
  have "insertBy bySizeDescending = insort_key (\<lambda>e. - si_size e)"
    by (intro ext) (rule insertBy_bySize)
  then show ?thesis by (simp add: sortBy_def sort_key_def)
qed

lemma fold_placeWord_top:
  "topLines (fold (placeWord t b) ws la) =
     topLines la @ map lineItem (filter (\<lambda>w. nonBlank w \<and> positionOf t b w = Top) ws)"
  by (induction ws arbitrary: la)
     (auto simp add: placeWord_def Let_def nonBlank_def split: position.splits)

lemma fold_placeWord_middle:
  "middleLines (fold (placeWord t b) ws la) =
     middleLines la @ map lineItem (filter (\<lambda>w. nonBlank w \<and> positionOf t b w = Middle) ws)"
  by (induction ws arbitrary: la)
     (auto simp add: placeWord_def Let_def nonBlank_def split: position.splits)

lemma fold_placeWord_bottom:
  "bottomLines (fold (placeWord t b) ws la) =
     bottomLines la @ map lineItem (filter (\<lambda>w. nonBlank w \<and> positionOf t b w = Bottom) ws)"
  by (induction ws arbitrary: la)
     (auto simp add: placeWord_def Let_def nonBlank_def split: position.splits)

lemma fold_placeWord_largest:
  "largestText (fold (placeWord t b) ws la) =
     largestText la @ map sizedItem (filter nonBlank ws)"
  by (induction ws arbitrary: la)
     (auto simp add: placeWord_def Let_def nonBlank_def split: position.splits)

lemma partition_by_position:
  "mset (map g (filter (\<lambda>w. P w \<and> f w = Top) ws))
     + mset (map g (filter (\<lambda>w. P w \<and> f w = Middle) ws))
     + mset (map g (filter (\<lambda>w. P w \<and> f w = Bottom) ws)) = mset (map g (filter P ws))"
proof (induction ws)
  case Nil
  then show ?case by simp
next
  case (Cons w ws)
  then show ?case by (cases "f w") auto
qed

text \<open>
  C9, as the code has it. On a non-empty token sequence analyzeCardLayout skips the tokens
  whose trimmed text is empty. Each of the other tokens goes to the list of its one
  region, in the original order, so the three lists together hold exactly the non-blank
  tokens; and the prominence list holds the non-blank tokens ordered by height descending,
  tokens of equal height in their original order.
\<close>

theorem analyzeCardLayout_partition_and_ranking:
  assumes "analyzeCardLayout r = Inr la"
  shows "topLines la = map lineItem
           (filter (\<lambda>w. nonBlank w \<and> regionOf r w = Top) (ocr_words r))
    \<and> middleLines la = map lineItem
           (filter (\<lambda>w. nonBlank w \<and> regionOf r w = Middle) (ocr_words r))
    \<and> bottomLines la = map lineItem
           (filter (\<lambda>w. nonBlank w \<and> regionOf r w = Bottom) (ocr_words r))
    \<and> mset (topLines la) + mset (middleLines la) + mset (bottomLines la)
        = mset (map lineItem (filter nonBlank (ocr_words r)))
    \<and> mset (largestText la) = mset (map sizedItem (filter nonBlank (ocr_words r)))
    \<and> sorted_wrt (\<lambda>a b. si_size a \<ge> si_size b) (largestText la)
    \<and> (\<forall>k. filter (\<lambda>e. si_size e = k) (largestText la)
           = filter (\<lambda>e. si_size e = k) (map sizedItem (filter nonBlank (ocr_words r))))"
proof -
  from assms obtain w ws where ws: "ocr_words r = w # ws"
    by (cases "ocr_words r") (simp_all add: analyzeCardLayout_def)
  define minY where "minY = fold min (map (\<lambda>b. y0 (w_bbox b)) ws) (y0 (w_bbox w))"
  define maxY where "maxY = fold max (map (\<lambda>b. y1 (w_bbox b)) ws) (y1 (w_bbox w))"
  define minX where "minX = fold min (map (\<lambda>b. x0 (w_bbox b)) ws) (x0 (w_bbox w))"
  define maxX where "maxX = fold max (map (\<lambda>b. x1 (w_bbox b)) ws) (x1 (w_bbox w))"
  define tT where "tT = minY + (maxY - minY) / 3"
  define bT where "bT = minY + 2 * (maxY - minY) / 3"
  define la0 where "la0 = fold (placeWord tT bT) (ocr_words r)
      \<lparr>topLines = [], middleLines = [], bottomLines = [], largestText = [],
       allLines = [], cardHeight = maxY - minY, cardWidth = maxX - minX\<rparr>"
  have la: "la = la0\<lparr>largestText := sortBy bySizeDescending (largestText la0)\<rparr>"
    using assms ws
    by (simp add: analyzeCardLayout_def Let_def la0_def tT_def bT_def minY_def maxY_def
        minX_def maxX_def)
  have region: "regionOf r = positionOf tT bT"
    by (intro ext)
       (simp add: regionOf_def verticalThirds_def ws Let_def tT_def bT_def minY_def maxY_def)
  have top: "topLines la = map lineItem
        (filter (\<lambda>w. nonBlank w \<and> regionOf r w = Top) (ocr_words r))"
    unfolding la region by (simp add: la0_def fold_placeWord_top)
  have mid: "middleLines la = map lineItem
        (filter (\<lambda>w. nonBlank w \<and> regionOf r w = Middle) (ocr_words r))"
    unfolding la region by (simp add: la0_def fold_placeWord_middle)
  have bot: "bottomLines la = map lineItem
        (filter (\<lambda>w. nonBlank w \<and> regionOf r w = Bottom) (ocr_words r))"
    unfolding la region by (simp add: la0_def fold_placeWord_bottom)
  have lt0: "largestText la0 = map sizedItem (filter nonBlank (ocr_words r))"
    by (simp add: la0_def fold_placeWord_largest)
  have lt: "largestText la =
      sort_key (\<lambda>e. - si_size e) (map sizedItem (filter nonBlank (ocr_words r)))"
    unfolding la by (simp add: sortBy_bySize lt0)
  have part: "mset (topLines la) + mset (middleLines la) + mset (bottomLines la)
        = mset (map lineItem (filter nonBlank (ocr_words r)))"
    unfolding top mid bot by (rule partition_by_position)
  have ms: "mset (largestText la) = mset (map sizedItem (filter nonBlank (ocr_words r)))"
    unfolding lt by simp
  have "sorted (map (\<lambda>e. - si_size e) (largestText la))"
    unfolding lt by (rule sorted_sort_key)
  then have so: "sorted_wrt (\<lambda>a b. si_size a \<ge> si_size b) (largestText la)"
    by (simp add: sorted_map sorted_wrt_iff_nth_less)
  have st: "\<forall>k. filter (\<lambda>e. si_size e = k) (largestText la)
           = filter (\<lambda>e. si_size e = k) (map sizedItem (filter nonBlank (ocr_words r)))"
  proof
    fix k
    have "filter (\<lambda>e. - si_size e = - k)
            (sort_key (\<lambda>e. - si_size e) (map sizedItem (filter nonBlank (ocr_words r))))
        = filter (\<lambda>e. - si_size e = - k) (map sizedItem (filter nonBlank (ocr_words r)))"
      by (rule sort_key_stable)
    then show "filter (\<lambda>e. si_size e = k) (largestText la)
           = filter (\<lambda>e. si_size e = k) (map sizedItem (filter nonBlank (ocr_words r)))"
      unfolding lt by simp
  qed
  from top mid bot part ms so st show ?thesis by blast
qed

lemma layout_three_tokens: "analyzeCardLayout threeTokenCard = Inr threeTokenLayout"
  by code_simp

theorem analyzeCardLayout_partition_and_ranking_witness:
  "analyzeCardLayout threeTokenCard = Inr threeTokenLayout
 \<and> mset (topLines threeTokenLayout) + mset (middleLines threeTokenLayout)
     + mset (bottomLines threeTokenLayout)
     = mset (map lineItem (filter nonBlank (ocr_words threeTokenCard)))
 \<and> sorted_wrt (\<lambda>a b. si_size a \<ge> si_size b) (largestText threeTokenLayout)
 \<and> filter (\<lambda>e. si_size e = 10) (largestText threeTokenLayout)
     = filter (\<lambda>e. si_size e = 10)
         (map sizedItem (filter nonBlank (ocr_words threeTokenCard)))"
proof -
  note t = analyzeCardLayout_partition_and_ranking [OF layout_three_tokens]
  note partition = t [THEN conjunct2, THEN conjunct2, THEN conjunct2, THEN conjunct1]
  note ranking = t [THEN conjunct2, THEN conjunct2, THEN conjunct2, THEN conjunct2,
      THEN conjunct2, THEN conjunct1]
  note stable = t [THEN conjunct2, THEN conjunct2, THEN conjunct2, THEN conjunct2,
      THEN conjunct2, THEN conjunct2, THEN spec]
  show ?thesis by (intro conjI layout_three_tokens partition ranking stable)
qed

text \<open>
  C9 as stated fails on a token sequence with a blank token: of the two tokens of the
  sample the blank one is in none of the three regions and not in the prominence list.
\<close>

theorem analyzeCardLayout_partition_counterexample:
  "map w_text (ocr_words blankTokenCard) = [''John'', '' '']
 \<and> map_sum id
      (\<lambda>la. (map li_text (topLines la), map li_text (middleLines la),
             map li_text (bottomLines la), map si_text (largestText la)))
      (analyzeCardLayout blankTokenCard)
   = Inr ([], [''John''], [], [''John''])"
  by code_simp

section \<open>Properties of the matcher and of the email extraction\<close>

lemma lastChar_append: "lastChar (lastChar prev a) b = lastChar prev (a @ b)"
  by (simp add: lastChar_def)

lemma rmatch_seq_Cons_bex:
  "(a, t) \<in> set (rmatch_seq (r # rs) prev s) \<longleftrightarrow>
   (\<exists>x \<in> set (rmatch r prev s).
      \<exists>y \<in> set (rmatch_seq rs (lastChar prev (fst x)) (snd x)). a = fst x @ fst y \<and> t = snd y)"
  by (simp add: case_prod_beta image_iff)

lemma rmatch_seq_Cons_iff:
  "(a, t) \<in> set (rmatch_seq (r # rs) prev s) \<longleftrightarrow>
   (\<exists>a1 t1 a2. (a1, t1) \<in> set (rmatch r prev s)
      \<and> (a2, t) \<in> set (rmatch_seq rs (lastChar prev a1) t1) \<and> a = a1 @ a2)"
  unfolding rmatch_seq_Cons_bex by force

lemma rmatch_seq_append_iff:
  "(a, t) \<in> set (rmatch_seq (rs1 @ rs2) prev s) \<longleftrightarrow>
   (\<exists>a1 t1 a2. (a1, t1) \<in> set (rmatch_seq rs1 prev s)
      \<and> (a2, t) \<in> set (rmatch_seq rs2 (lastChar prev a1) t1) \<and> a = a1 @ a2)"
proof (induction rs1 arbitrary: a prev s)
  case Nil
  then show ?case by (simp add: lastChar_def)
next
  case (Cons r rs1)
  show ?case
  proof
    assume "(a, t) \<in> set (rmatch_seq ((r # rs1) @ rs2) prev s)"
    then obtain b1 u1 b2 where b: "(b1, u1) \<in> set (rmatch r prev s)"
      "(b2, t) \<in> set (rmatch_seq (rs1 @ rs2) (lastChar prev b1) u1)" "a = b1 @ b2"
      unfolding append_Cons rmatch_seq_Cons_iff by blast
    from b(2) obtain c1 v1 c2 where c: "(c1, v1) \<in> set (rmatch_seq rs1 (lastChar prev b1) u1)"
      "(c2, t) \<in> set (rmatch_seq rs2 (lastChar (lastChar prev b1) c1) v1)" "b2 = c1 @ c2"
      unfolding Cons.IH by blast
    have "(b1 @ c1, v1) \<in> set (rmatch_seq (r # rs1) prev s)"
      unfolding rmatch_seq_Cons_iff using b(1) c(1) by blast
    moreover have "(c2, t) \<in> set (rmatch_seq rs2 (lastChar prev (b1 @ c1)) v1)"
      using c(2) by (simp only: lastChar_append)
    moreover have "a = (b1 @ c1) @ c2" using b(3) c(3) by simp
    ultimately show "\<exists>a1 t1 a2. (a1, t1) \<in> set (rmatch_seq (r # rs1) prev s)
      \<and> (a2, t) \<in> set (rmatch_seq rs2 (lastChar prev a1) t1) \<and> a = a1 @ a2" by blast
  next
    assume "\<exists>a1 t1 a2. (a1, t1) \<in> set (rmatch_seq (r # rs1) prev s)
      \<and> (a2, t) \<in> set (rmatch_seq rs2 (lastChar prev a1) t1) \<and> a = a1 @ a2"
    then obtain a1 t1 a2 where m: "(a1, t1) \<in> set (rmatch_seq (r # rs1) prev s)"
      "(a2, t) \<in> set (rmatch_seq rs2 (lastChar prev a1) t1)" "a = a1 @ a2" by blast
    from m(1) obtain b1 u1 b2 where b: "(b1, u1) \<in> set (rmatch r prev s)"
      "(b2, t1) \<in> set (rmatch_seq rs1 (lastChar prev b1) u1)" "a1 = b1 @ b2"
      unfolding rmatch_seq_Cons_iff by blast
    have "(a2, t) \<in> set (rmatch_seq rs2 (lastChar (lastChar prev b1) b2) t1)"
      using m(2) b(3) by (simp only: lastChar_append)
    with b(2) have "(b2 @ a2, t) \<in> set (rmatch_seq (rs1 @ rs2) (lastChar prev b1) u1)"
      unfolding Cons.IH by blast
    with b(1) have "(b1 @ b2 @ a2, t) \<in> set (rmatch_seq (r # rs1 @ rs2) prev s)"
      unfolding rmatch_seq_Cons_iff by blast
    then show "(a, t) \<in> set (rmatch_seq ((r # rs1) @ rs2) prev s)"
      using m(3) b(3) by simp
  qed
qed

lemma take_takeWhile_all:
  "j \<le> length (takeWhile p s) \<Longrightarrow> x \<in> set (take j s) \<Longrightarrow> p x"
proof (induction s arbitrary: j)
  case Nil
  then show ?case by simp
next
  case (Cons y ys)
  then show ?case by (cases j) (auto split: if_splits)
qed

lemma repChoices_class:
  assumes "(a, t) \<in> set (repChoices p m n s)" and "x \<in> set a"
  shows "p x"
proof -
  from assms(1) obtain j where j: "a = take j s" "j \<le> length (takeWhile p s)"
    by (auto simp add: repChoices_def Let_def split: option.splits)
  with assms(2) show ?thesis using take_takeWhile_all by metis
qed

lemma rmatch_avoids:
  "avoids c r \<Longrightarrow> (a, t) \<in> set (rmatch r prev s) \<Longrightarrow> c \<notin> set a"
  "\<forall>r \<in> set rs. avoids c r \<Longrightarrow> (a, t) \<in> set (rmatch_seq rs prev s) \<Longrightarrow> c \<notin> set a"
proof (induction r prev s and rs prev s arbitrary: a t and a t rule: rmatch_rmatch_seq.induct)
  case (1 p prev s)
  then show ?case by (auto split: list.splits if_splits)
next
  case (2 p m n prev s)
  then show ?case using repChoices_class by fastforce
next
  case (3 rs prev s)
  then show ?case by simp
next
  case (4 r prev s)
  then show ?case by auto
next
  case (5 prev s)
  then show ?case by (auto split: if_splits)
next
  case (6 prev s)
  then show ?case by simp
next
  case (7 r rs prev s)
  from "7.prems"(2) obtain a1 t1 a2 where
    m: "(a1, t1) \<in> set (rmatch r prev s)"
       "(a2, t) \<in> set (rmatch_seq rs (lastChar prev a1) t1)" "a = a1 @ a2"
    unfolding rmatch_seq_Cons_iff by blast
  have "c \<notin> set a1" using "7.IH"(1) "7.prems"(1) m(1) by simp
  moreover have "c \<notin> set a2" using "7.IH"(2) [OF m(1) refl] "7.prems"(1) m(2) by simp
  ultimately show ?case using m(3) by simp
qed

lemma at_classes:
  "\<not> isAlnum CHR ''@''" "\<not> userChar CHR ''@''" "\<not> domainChar CHR ''@''"
  "\<not> isDot CHR ''@''" "\<not> isLetter CHR ''@''" "\<not> isSpace CHR ''@''" "\<not> isUpper CHR ''@''"
  by (simp_all add: isAlnum_def userChar_def domainChar_def isDot_def isLetter_def isSpace_def
      isUpper_def isLower_def isDigit_def charCode_def)

lemma email_parts_avoid_at:
  "\<forall>r \<in> set localPartRx. avoids CHR ''@'' r"
  "\<forall>r \<in> set hostRx. avoids CHR ''@'' r"
  "\<forall>r \<in> set standardTail. avoids CHR ''@'' r"
  "\<forall>r \<in> set ocrTail. avoids CHR ''@'' r"
  by (simp_all add: localPartRx_def hostRx_def standardTail_def ocrTail_def at_classes)

lemma rmatch_around_at:
  assumes "\<forall>r \<in> set before. avoids CHR ''@'' r" and "\<forall>r \<in> set after. avoids CHR ''@'' r"
    and "(a, t) \<in> set (rmatch (Seq (before @ [Chr isAt] @ after)) prev s)"
  shows "\<exists>u d. oneAt a u d"
proof -
  from assms(3) have "(a, t) \<in> set (rmatch_seq (before @ (Chr isAt # after)) prev s)"
    by simp
  then obtain u t1 a2 where u: "(u, t1) \<in> set (rmatch_seq before prev s)"
    and a2: "(a2, t) \<in> set (rmatch_seq (Chr isAt # after) (lastChar prev u) t1)"
    and a: "a = u @ a2"
    unfolding rmatch_seq_append_iff by blast
  from a2 obtain x t2 d where x: "(x, t2) \<in> set (rmatch (Chr isAt) (lastChar prev u) t1)"
    and d: "(d, t) \<in> set (rmatch_seq after (lastChar (lastChar prev u) x) t2)"
    and a2eq: "a2 = x @ d"
    unfolding rmatch_seq_Cons_iff by blast
  from x have xeq: "x = [CHR ''@'']"
    by (auto simp add: isAt_def split: list.splits if_splits)
  have nd: "CHR ''@'' \<notin> set d" using rmatch_avoids(2) [OF assms(2) d] .
  have nu: "CHR ''@'' \<notin> set u" using rmatch_avoids(2) [OF assms(1) u] .
  show ?thesis using a a2eq xeq nu nd by (auto simp add: oneAt_def)
qed

lemma rmatch_emailRx:
  assumes "\<forall>r \<in> set tail. avoids CHR ''@'' r"
    and "(a, t) \<in> set (rmatch (emailRx tail) prev s)"
  shows "\<exists>u d. oneAt a u d"
proof -
  have after: "\<forall>r \<in> set (hostRx @ tail). avoids CHR ''@'' r"
    using assms(1) email_parts_avoid_at(2) by auto
  have "emailRx tail = Seq (localPartRx @ [Chr isAt] @ (hostRx @ tail))"
    by (simp add: emailRx_def)
  with assms(2) rmatch_around_at [OF email_parts_avoid_at(1) after] show ?thesis by metis
qed

lemma execAll_skip_elem:
  "m \<in> set (execAll_skip r k prev s) \<Longrightarrow> \<exists>prev' s' t. (m, t) \<in> set (rmatch r prev' s')"
proof (induction s arbitrary: k prev)
  case Nil
  then show ?case by simp
next
  case (Cons c cs)
  show ?case
  proof (cases "k > 0")
    case True
    with Cons show ?thesis by simp
  next
    case False
    show ?thesis
    proof (cases "rmatch r prev (c # cs)")
      case Nil
      with False Cons show ?thesis by simp
    next
      case found: (Cons p ps)
      obtain a t where p: "p = (a, t)" by (cases p)
      from Cons.prems False found p
      have "m = a \<or> m \<in> set (execAll_skip r (length a - 1) (Some c) cs)" by simp
      then show ?thesis
      proof
        assume "m = a"
        then have "(m, t) \<in> set (rmatch r prev (c # cs))" using found p by simp
        then show ?thesis by blast
      next
        assume "m \<in> set (execAll_skip r (length a - 1) (Some c) cs)"
        then show ?thesis using Cons.IH by blast
      qed
    qed
  qed
qed

lemma execAll_around_at:
  assumes "\<forall>r \<in> set before. avoids CHR ''@'' r" and "\<forall>r \<in> set after. avoids CHR ''@'' r"
    and "m \<in> set (execAll (Seq (before @ [Chr isAt] @ after)) s)"
  shows "\<exists>u d. oneAt m u d"
  using assms(3) execAll_skip_elem rmatch_around_at [OF assms(1,2)] unfolding execAll_def
  by blast

lemma execAll_emailRx:
  assumes "\<forall>r \<in> set tail. avoids CHR ''@'' r" and "m \<in> set (execAll (emailRx tail) s)"
  shows "\<exists>u d. oneAt m u d"
  using assms execAll_skip_elem rmatch_emailRx unfolding execAll_def by blast

lemma lowerChar_at: "lowerChar x = CHR ''@'' \<longleftrightarrow> x = CHR ''@''"
proof (cases "isUpper x")
  case True
  then have "of_char (lowerChar x) = ((of_char x + 32) mod 256 :: nat)"
    by (simp add: lowerChar_def charCode_def)
  moreover have "97 \<le> (of_char x + 32 :: nat)" "(of_char x + 32 :: nat) \<le> 122"
    using True by (simp_all add: isUpper_def charCode_def)
  ultimately have "(of_char (lowerChar x) :: nat) \<noteq> 64" by simp
  then have "lowerChar x \<noteq> CHR ''@''" by auto
  moreover have "x \<noteq> CHR ''@''" using True at_classes(7) by auto
  ultimately show ?thesis by simp
next
  case False
  then show ?thesis by (simp add: lowerChar_def)
qed

lemma toLowerCase_oneAt:
  assumes "oneAt s u d"
  shows "oneAt (toLowerCase s) (toLowerCase u) (toLowerCase d)"
proof -
  from assms have s: "s = u @ CHR ''@'' # d" and u: "CHR ''@'' \<notin> set u"
    and d: "CHR ''@'' \<notin> set d"
    by (simp_all add: oneAt_def)
  have at: "lowerChar CHR ''@'' = CHR ''@''" by (simp add: lowerChar_at)
  have keep: "CHR ''@'' \<notin> set (map lowerChar w)" if "CHR ''@'' \<notin> set w" for w
  proof
    assume "CHR ''@'' \<in> set (map lowerChar w)"
    then obtain x where "x \<in> set w" "lowerChar x = CHR ''@''" by auto
    then have "CHR ''@'' \<in> set w" by (simp add: lowerChar_at)
    with that show False by simp
  qed
  show ?thesis
    unfolding oneAt_def toLowerCase_def s using at keep [OF u] keep [OF d] by simp
qed

lemma dropWhile_space_oneAt:
  assumes "oneAt s u d"
  shows "oneAt (dropWhile isSpace s) (dropWhile isSpace u) d"
proof -
  from assms have s: "s = u @ CHR ''@'' # d" and u: "CHR ''@'' \<notin> set u" and d: "CHR ''@'' \<notin> set d"
    by (simp_all add: oneAt_def)
  have "dropWhile isSpace s = dropWhile isSpace u @ CHR ''@'' # d"
    unfolding s using at_classes(6) by (simp add: dropWhile_append3)
  moreover have "CHR ''@'' \<notin> set (dropWhile isSpace u)"
    using u set_dropWhileD by fastforce
  ultimately show ?thesis using d by (simp add: oneAt_def)
qed

lemma rev_oneAt: "oneAt s u d \<Longrightarrow> oneAt (rev s) (rev d) (rev u)"
  by (simp add: oneAt_def)

lemma trim_oneAt:
  assumes "oneAt s u d"
  shows "\<exists>u' d'. oneAt (trim s) u' d'"
proof -
  note a = dropWhile_space_oneAt [OF assms]
  note b = dropWhile_space_oneAt [OF rev_oneAt [OF a]]
  note c = rev_oneAt [OF b]
  then show ?thesis unfolding trim_def by blast
qed

lemma js_split_none: "c \<notin> set d \<Longrightarrow> js_split c d = [d]"
  by (induction d) auto

lemma js_split_first: "c \<notin> set u \<Longrightarrow> js_split c (u @ c # d) = u # js_split c d"
  by (induction u) auto

lemma js_split_oneAt: "oneAt s u d \<Longrightarrow> js_split CHR ''@'' s = [u, d]"
  by (simp add: oneAt_def js_split_first js_split_none)

lemma deriveWebsite_oneAt: "oneAt s u d \<Longrightarrow> deriveWebsite s = ''www.'' @ d"
  by (simp add: deriveWebsite_def js_split_oneAt)

lemma validateAndScore_oneAt:
  assumes "oneAt s u d"
  shows "\<exists>r. validateAndScore s base had = Inr r \<and> ep_email r = s"
  by (simp add: validateAndScore_def js_split_oneAt [OF assms] Let_def)

lemma oneAt_count: "oneAt s u d \<Longrightarrow> length (filter isAt s) = 1"
  by (auto simp add: oneAt_def isAt_def filter_empty_conv)

lemma oneAt_substring: "oneAt s u d \<Longrightarrow> substringAfterAt s = d"
proof -
  assume a: "oneAt s u d"
  then have s: "s = u @ CHR ''@'' # d" and u: "CHR ''@'' \<notin> set u" by (simp_all add: oneAt_def)
  have "dropWhile (\<lambda>c. c \<noteq> CHR ''@'') s = CHR ''@'' # d"
    unfolding s using u by (simp add: dropWhile_append3) (metis dropWhile_eq_Nil_conv)
  then show ?thesis by (simp add: substringAfterAt_def)
qed

lemma set_insertBy: "set (insertBy cmp x ys) = insert x (set ys)"
  by (induction ys) auto

lemma set_sortBy: "set (sortBy cmp xs) = set xs"
  by (induction xs) (simp_all add: sortBy_def set_insertBy)

lemma scoreMatches_total:
  assumes "\<forall>m \<in> set ms. \<exists>u d. oneAt m u d"
    and "\<forall>r \<in> set results. \<exists>u d. oneAt (ep_email r) u d"
  shows "\<exists>results' processed'.
           scoreMatches conf had ms (results, processed) = Inr (results', processed')
         \<and> (\<forall>r \<in> set results'. \<exists>u d. oneAt (ep_email r) u d)"
  using assms
proof (induction ms arbitrary: results processed)
  case Nil
  then show ?case by simp
next
  case (Cons m ms)
  from Cons.prems(1) obtain u d where m: "oneAt m u d" by auto
  from trim_oneAt [OF toLowerCase_oneAt [OF m]]
  obtain u' d' where e: "oneAt (trim (toLowerCase m)) u' d'" by blast
  from validateAndScore_oneAt [OF e, of conf had]
  obtain r where r: "validateAndScore (trim (toLowerCase m)) conf had = Inr r"
    "ep_email r = trim (toLowerCase m)" by blast
  have rest: "\<forall>m \<in> set ms. \<exists>u d. oneAt m u d" using Cons.prems(1) by simp
  have good: "\<forall>x \<in> set (if ep_isValid r then results @ [r] else results).
      \<exists>u d. oneAt (ep_email x) u d"
    using Cons.prems(2) r(2) e by auto
  show ?case
  proof (cases "trim (toLowerCase m) \<in> set processed")
    case True
    then show ?thesis using Cons.IH [OF rest Cons.prems(2)] by (simp add: Let_def)
  next
    case False
    then show ?thesis using Cons.IH [OF rest good] r(1) by (simp add: Let_def)
  qed
qed

lemma scorePatterns_total:
  assumes "\<forall>pc \<in> set ps. \<exists>tail. fst pc = emailRx tail \<and> (\<forall>r \<in> set tail. avoids CHR ''@'' r)"
    and "\<forall>r \<in> set (fst acc). \<exists>u d. oneAt (ep_email r) u d"
  shows "\<exists>acc'. scorePatterns txt ps acc = Inr acc'
         \<and> (\<forall>r \<in> set (fst acc'). \<exists>u d. oneAt (ep_email r) u d)"
  using assms
proof (induction ps arbitrary: acc)
  case Nil
  then show ?case by simp
next
  case (Cons pc ps)
  obtain pattern conf where pc: "pc = (pattern, conf)" by (cases pc)
  obtain results processed where acc: "acc = (results, processed)" by (cases acc)
  from Cons.prems(1) pc obtain tail where tail: "pattern = emailRx tail"
    "\<forall>r \<in> set tail. avoids CHR ''@'' r" by auto
  have ms: "\<forall>m \<in> set (execAll pattern (applyOCRCorrections txt)). \<exists>u d. oneAt m u d"
    using execAll_emailRx tail by blast
  from scoreMatches_total [OF ms, of results conf "txt \<noteq> applyOCRCorrections txt" processed]
    Cons.prems(2) acc
  obtain results' processed' where sm:
    "scoreMatches conf (txt \<noteq> applyOCRCorrections txt)
       (execAll pattern (applyOCRCorrections txt)) (results, processed) = Inr (results', processed')"
    "\<forall>r \<in> set results'. \<exists>u d. oneAt (ep_email r) u d" by auto
  have "\<forall>r \<in> set (fst (results', processed')). \<exists>u d. oneAt (ep_email r) u d"
    using sm(2) by simp
  from Cons.IH [OF _ this] Cons.prems(1)
  obtain acc' where "scorePatterns txt ps (results', processed') = Inr acc'"
    "\<forall>r \<in> set (fst acc'). \<exists>u d. oneAt (ep_email r) u d" by auto
  then show ?case using sm(1) pc acc by (simp add: Let_def)
qed

lemma extractEmails_total:
  "\<exists>rs. extractEmails txt = Inr rs \<and> (\<forall>r \<in> set rs. \<exists>u d. oneAt (ep_email r) u d)"
proof -
  have ps: "\<forall>pc \<in> set EMAIL_PATTERNS.
      \<exists>tail. fst pc = emailRx tail \<and> (\<forall>r \<in> set tail. avoids CHR ''@'' r)"
    using email_parts_avoid_at(3,4) by (auto simp add: EMAIL_PATTERNS_def)
  have emp: "\<forall>r \<in> set (fst (([], []) :: EmailParseResult list \<times> string list)).
      \<exists>u d. oneAt (ep_email r) u d" by simp
  from scorePatterns_total [OF ps emp]
  obtain acc' where a: "scorePatterns txt EMAIL_PATTERNS ([], []) = Inr acc'"
    "\<forall>r \<in> set (fst acc'). \<exists>u d. oneAt (ep_email r) u d" by blast
  obtain results processed where acc: "acc' = (results, processed)" by (cases acc')
  show ?thesis using a acc by (simp add: extractEmails_def set_sortBy)
qed

lemma getPrimaryEmail_elem: "getPrimaryEmail rs = Some p \<Longrightarrow> p \<in> set rs"
  by (auto simp add: getPrimaryEmail_def find_Some_iff split: option.splits list.splits)

section \<open>Properties of the extraction pipeline\<close>

lemma keepsEmail_refl: "keepsEmail c c"
  by (simp add: keepsEmail_def)

lemma keepsEmail_trans: "keepsEmail a b \<Longrightarrow> keepsEmail b c \<Longrightarrow> keepsEmail a c"
  by (simp add: keepsEmail_def)

lemma keepsEmail_follows: "keepsEmail c c' \<Longrightarrow> websiteFollowsEmail c \<Longrightarrow> websiteFollowsEmail c'"
  by (cases "email c") (simp_all add: keepsEmail_def websiteFollowsEmail_def)

lemma keeps_detectPhone: "keepsEmail c (detectPhone ps txt c)"
  by (simp add: keepsEmail_def detectPhone_def setConf_def split: option.splits)

lemma keeps_detectName: "keepsEmail c (detectName c)"
  by (simp add: keepsEmail_def detectName_def setConf_def Let_def split: option.splits)

lemma keeps_detectCompany: "keepsEmail c (detectCompany ps c)"
  by (simp add: keepsEmail_def detectCompany_def setConf_def split: option.splits)

lemma keeps_selectBestTitleCandidate: "keepsEmail c (selectBestTitleCandidate cands c)"
  by (simp add: keepsEmail_def selectBestTitleCandidate_def setConf_def split: list.splits)

lemma keeps_fallbackTitle: "keepsEmail c (fallbackTitle lines c)"
  by (simp add: keepsEmail_def fallbackTitle_def setConf_def split: option.splits)

lemma keeps_address_step:
  "keepsEmail x (case a of None \<Rightarrow> x
     | Some addressData \<Rightarrow> setConf (g addressData) (x\<lparr>address := Some addressData\<rparr>))"
  by (cases a) (simp_all add: keepsEmail_def setConf_def)

lemma keeps_detectFieldsWithStructure: "keepsEmail c (detectFieldsWithStructure ps layout lines c)"
proof -
  define c2 where "c2 = detectCompany ps (detectName c)"
  define c3 where "c3 = (if \<not> truthy (title c2)
        then selectBestTitleCandidate (getTitleCandidates layout) c2 else c2)"
  have k2: "keepsEmail c c2"
    unfolding c2_def using keepsEmail_trans [OF keeps_detectName keeps_detectCompany] .
  have k3: "keepsEmail c c3"
  proof (cases "truthy (title c2)")
    case True
    then show ?thesis using k2 by (simp add: c3_def)
  next
    case False
    then show ?thesis
      using keepsEmail_trans [OF k2 keeps_selectBestTitleCandidate] by (simp add: c3_def)
  qed
  have eq: "detectFieldsWithStructure ps layout lines c =
      (case extractAddress ps lines of None \<Rightarrow> c3
       | Some addressData \<Rightarrow>
           setConf (\<lambda>f. f\<lparr>fc_address := Some (calculateAddressConfidence addressData)\<rparr>)
             (c3\<lparr>address := Some addressData\<rparr>))"
    unfolding detectFieldsWithStructure_def Let_def c3_def c2_def ..
  show ?thesis unfolding eq by (rule keepsEmail_trans [OF k3 keeps_address_step])
qed

lemma keeps_rules:
  "email (fst (rule1 cf)) = email (fst cf)" "website (fst (rule1 cf)) = website (fst cf)"
  "email (fst (rule2 cf)) = email (fst cf)" "website (fst (rule2 cf)) = website (fst cf)"
  "email (fst (rule3 cf)) = email (fst cf)" "website (fst (rule3 cf)) = website (fst cf)"
  "email (fst (rule4 cf)) = email (fst cf)" "website (fst (rule4 cf)) = website (fst cf)"
  "raw_text (fst (rule1 cf)) = raw_text (fst cf)" "raw_text (fst (rule2 cf)) = raw_text (fst cf)"
  "raw_text (fst (rule3 cf)) = raw_text (fst cf)" "raw_text (fst (rule4 cf)) = raw_text (fst cf)"
  by (cases cf; simp add: rule1_def rule2_def rule3_def rule4_def Let_def)+

lemma validateAndCleanFields_keeps:
  assumes "fieldConfidences c \<noteq> None"
  shows "\<exists>c'. validateAndCleanFields c = Inr c' \<and> keepsEmail c c'"
proof -
  from assms obtain f where f: "fieldConfidences c = Some f" by auto
  obtain c4 f4 where r: "rule4 (rule3 (rule2 (rule1 (c, f)))) = (c4, f4)"
    by (cases "rule4 (rule3 (rule2 (rule1 (c, f))))")
  have "email c4 = email c" "website c4 = website c" "raw_text c4 = raw_text c"
    using keeps_rules [of "rule3 (rule2 (rule1 (c, f)))"] keeps_rules [of "rule2 (rule1 (c, f))"]
      keeps_rules [of "rule1 (c, f)"] keeps_rules [of "(c, f)"] r
    by simp_all
  then show ?thesis using f r by (simp add: validateAndCleanFields_def keepsEmail_def)
qed

lemma detectEmail_follows:
  assumes "websiteFollowsEmail c"
  shows "\<exists>c'. detectEmail txt c = Inr c' \<and> websiteFollowsEmail c'
       \<and> raw_text c' = raw_text c
       \<and> (fieldConfidences c \<noteq> None \<longrightarrow> fieldConfidences c' \<noteq> None)"
proof -
  from extractEmails_total [of "txt"] obtain rs where rs: "extractEmails txt = Inr rs"
    "\<forall>r \<in> set rs. \<exists>u d. oneAt (ep_email r) u d" by blast
  show ?thesis
  proof (cases "getPrimaryEmail rs")
    case None
    then show ?thesis using rs(1) assms by (simp add: detectEmail_def)
  next
    case (Some p)
    then have "p \<in> set rs" by (rule getPrimaryEmail_elem)
    with rs(2) obtain u d where o: "oneAt (ep_email p) u d" by blast
    show ?thesis
      using rs(1) Some oneAt_count [OF o] oneAt_substring [OF o] deriveWebsite_oneAt [OF o]
      by (simp add: detectEmail_def websiteFollowsEmail_def setConf_def)
  qed
qed

lemma fresh_follows: "websiteFollowsEmail (freshContact txt conf)"
  "fieldConfidences (freshContact txt conf) \<noteq> None"
  "raw_text (freshContact txt conf) = txt"
  by (simp_all add: websiteFollowsEmail_def freshContact_def)

lemma parseContactDataBasic_total:
  "\<exists>c. parseContactDataBasic ps r = Inr c \<and> websiteFollowsEmail c \<and> raw_text c = ocr_text r"
proof -
  from detectEmail_follows [OF fresh_follows(1), of "ocr_text r" "ocr_text r" "ocr_confidence r"]
  obtain c1 where c1: "detectEmail (ocr_text r) (freshContact (ocr_text r) (ocr_confidence r)) = Inr c1"
    "websiteFollowsEmail c1" "raw_text c1 = ocr_text r" by (auto simp add: fresh_follows(3))
  define c4 where "c4 = detectCompany ps (detectName (detectPhone ps (ocr_text r) c1))"
  define c5 where "c5 = (if \<not> truthy (title c4) then fallbackTitle (linesOf (ocr_text r)) c4 else c4)"
  have k4: "keepsEmail c1 c4"
    unfolding c4_def
    using keepsEmail_trans [OF keepsEmail_trans [OF keeps_detectPhone keeps_detectName]
        keeps_detectCompany] .
  have k: "keepsEmail c1 c5"
  proof (cases "truthy (title c4)")
    case True
    then show ?thesis using k4 by (simp add: c5_def)
  next
    case False
    then show ?thesis using keepsEmail_trans [OF k4 keeps_fallbackTitle] by (simp add: c5_def)
  qed
  have "parseContactDataBasic ps r =
      (case extractAddress ps (linesOf (ocr_text r)) of None \<Rightarrow> Inr c5
           | Some addressData \<Rightarrow> Inr (c5\<lparr>address := Some addressData\<rparr>))"
    unfolding parseContactDataBasic_def Let_def c5_def c4_def c1(1) sum.case ..
  then have eq: "parseContactDataBasic ps r =
      Inr (case extractAddress ps (linesOf (ocr_text r)) of None \<Rightarrow> c5
           | Some addressData \<Rightarrow> c5\<lparr>address := Some addressData\<rparr>)"
    by (cases "extractAddress ps (linesOf (ocr_text r))") simp_all
  define final where "final = (case extractAddress ps (linesOf (ocr_text r)) of None \<Rightarrow> c5
           | Some addressData \<Rightarrow> c5\<lparr>address := Some addressData\<rparr>)"
  have "keepsEmail c5 final"
    by (simp add: final_def keepsEmail_def split: option.splits)
  then have kf: "keepsEmail c1 final" using k keepsEmail_trans by blast
  have "websiteFollowsEmail final" using keepsEmail_follows [OF kf c1(2)] .
  moreover have "raw_text final = ocr_text r" using kf c1(3) by (simp add: keepsEmail_def)
  moreover have "parseContactDataBasic ps r = Inr final" using eq by (simp add: final_def)
  ultimately show ?thesis by blast
qed

lemma detectFieldsWithLayout_total:
  "\<exists>c. detectFieldsWithLayout ps la lines txt = Inr c \<and> websiteFollowsEmail c"
proof -
  from detectEmail_follows [OF fresh_follows(1), of "txt" "txt" 75] fresh_follows(2)
  obtain c1 where c1: "detectEmail txt (freshContact txt 75) = Inr c1"
    "websiteFollowsEmail c1" "fieldConfidences c1 \<noteq> None" by blast
  let ?c2 = "detectPhone ps txt c1"
  let ?c3 = "detectFieldsWithStructure ps la lines ?c2"
  have k: "keepsEmail c1 ?c3"
    using keepsEmail_trans [OF keeps_detectPhone keeps_detectFieldsWithStructure] .
  then have "fieldConfidences ?c3 \<noteq> None" using c1(3) by (simp add: keepsEmail_def)
  from validateAndCleanFields_keeps [OF this]
  obtain c' where c': "validateAndCleanFields ?c3 = Inr c'" "keepsEmail ?c3 c'" by blast
  have "websiteFollowsEmail c'"
    using keepsEmail_follows [OF keepsEmail_trans [OF k c'(2)] c1(2)] .
  then show ?thesis
    using c1(1) c'(1)
    by (simp add: detectFieldsWithLayout_def detectContactInfoWithStructure_def)
qed

lemma parseContactDataWithLayout_total:
  "\<exists>c. parseContactDataWithLayout ps r = Inr c \<and> websiteFollowsEmail c"
proof (cases "analyzeCardLayout r")
  case (Inl e)
  then show ?thesis
    using parseContactDataBasic_total [of ps r] by (auto simp add: parseContactDataWithLayout_def)
next
  case (Inr la)
  from detectFieldsWithLayout_total [of ps la "linesOf (ocr_text r)" "ocr_text r"]
  obtain c where "detectFieldsWithLayout ps la (linesOf (ocr_text r)) (ocr_text r) = Inr c"
    "websiteFollowsEmail c" by blast
  then show ?thesis using Inr by (simp add: parseContactDataWithLayout_def)
qed


lemma visionDetectEmail_follows:
  assumes "websiteFollowsEmail c"
  shows "websiteFollowsEmail (visionDetectEmail t c)"
proof (cases "execAll visionEmailRx t")
  case Nil
  then show ?thesis using assms by (simp add: visionDetectEmail_def)
next
  case (Cons m ms)
  have before: "\<forall>r \<in> set [Rep visionUserChar 1 None]. avoids CHR ''@'' r"
    by (simp add: visionUserChar_def at_classes)
  have after: "\<forall>r \<in> set [Rep domainChar 1 None, Chr isDot, Rep isLetter 2 None].
      avoids CHR ''@'' r"
    by (simp add: at_classes)
  have "m \<in> set (execAll (Seq ([Rep visionUserChar 1 None] @ [Chr isAt] @
          [Rep domainChar 1 None, Chr isDot, Rep isLetter 2 None])) t)"
    using Cons by (simp add: visionEmailRx_def)
  from execAll_around_at [OF before after this] obtain u d where o: "oneAt m u d" by blast
  show ?thesis
    using Cons oneAt_count [OF o] oneAt_substring [OF o] deriveWebsite_oneAt [OF o]
    by (simp add: visionDetectEmail_def websiteFollowsEmail_def setConf_def)
qed

lemma parse_emailCard: "parseContactDataWithLayout noParsers emailCard = Inr (emailRecord 75)"
  by code_simp





text \<open>
  C5. Every record the extraction returns, on the layout path or on the basic path, that
  has an email has a website too: the address contains exactly one \<open>@\<close>, and the website
  is www. followed by the part of the address after it.
\<close>

theorem website_follows_email:
  assumes "parseContactDataWithLayout ps r = Inr c" and "email c = Some e"
  shows "website c = Some (''www.'' @ substringAfterAt e) \<and> length (filter isAt e) = 1"
  using parseContactDataWithLayout_total [of ps r] assms
  by (auto simp add: websiteFollowsEmail_def)

theorem website_follows_email_witness:
  "parseContactDataWithLayout noParsers emailCard = Inr (emailRecord 75)
 \<and> email (emailRecord 75) = Some ''jane@acme.org''
 \<and> website (emailRecord 75) = Some ''www.acme.org''
 \<and> substringAfterAt ''jane@acme.org'' = ''acme.org''"
  using website_follows_email [OF parse_emailCard, of "''jane@acme.org''"]
  by (simp add: parse_emailCard emailRecord_def substringAfterAt_def)







end
